theory Spec2Isabelle
  imports Main "HOL-Library.Word" "HOL-Library.Finite_Map"
begin

unbundle bit_operations_syntax

section \<open>JavaScript values\<close>

text \<open>
  The program is a Node.js server (\<^verbatim>\<open>src/server.js\<close>). A JavaScript string is a
  sequence of UTF-16 code units, and \<^verbatim>\<open>length\<close> counts code units, so a string is a
  list of 16-bit words. \<open>js\<close> embeds an ASCII literal of the source.
\<close>

type_synonym jsstring = "16 word list"

definition js :: "string \<Rightarrow> jsstring" where
  "js s = map of_char s"

text \<open>
  The values \<^verbatim>\<open>JSON.parse\<close> and the body parser produce. A Number is an IEEE-754
  double, kept as its 64-bit pattern; an object is a finite map from property names to
  values (the order of the properties, which only the serialized text shows, is not
  modelled). \<^verbatim>\<open>undefined\<close> is not a JSON value: an expression that may be
  \<^verbatim>\<open>undefined\<close> has type \<open>json option\<close>, with \<open>None\<close> for it.
\<close>

datatype json =
    JNull
  | JBool bool
  | JNum "64 word"
  | JStr jsstring
  | JArr "json list"
  | JObj "(jsstring, json) fmap"

definition is_zero :: "64 word \<Rightarrow> bool" where
  "is_zero d = ((d AND 0x7FFFFFFFFFFFFFFF) = 0)"

definition is_NaN :: "64 word \<Rightarrow> bool" where
  "is_NaN d = (0x7FF0000000000000 < (d AND 0x7FFFFFFFFFFFFFFF))"

text \<open>ToBoolean, as \<^verbatim>\<open>!x\<close> and \<^verbatim>\<open>x && y\<close> apply it.\<close>

fun truthy :: "json option \<Rightarrow> bool" where
  "truthy None = False"
| "truthy (Some JNull) = False"
| "truthy (Some (JBool b)) = b"
| "truthy (Some (JNum d)) = (\<not> is_zero d \<and> \<not> is_NaN d)"
| "truthy (Some (JStr s)) = (s \<noteq> [])"
| "truthy (Some (JArr xs)) = True"
| "truthy (Some (JObj m)) = True"

datatype jstype = TUndefined | TObject | TBoolean | TNumber | TString

fun typeof :: "json option \<Rightarrow> jstype" where
  "typeof None = TUndefined"
| "typeof (Some JNull) = TObject"
| "typeof (Some (JBool b)) = TBoolean"
| "typeof (Some (JNum d)) = TNumber"
| "typeof (Some (JStr s)) = TString"
| "typeof (Some (JArr xs)) = TObject"
| "typeof (Some (JObj m)) = TObject"

fun Array_isArray :: "json option \<Rightarrow> bool" where
  "Array_isArray (Some (JArr xs)) = True"
| "Array_isArray v = False"

text \<open>
  A thrown value: an \<^verbatim>\<open>Error\<close> object, of which the handler reads only
  \<^verbatim>\<open>message\<close> (\<open>None\<close> when the property is absent). The errors of the
  runtime and of the Groq SDK are \<^verbatim>\<open>Error\<close> instances, whose message is a string.
\<close>

record js_error =
  message :: "jsstring option"

definition Error :: "string \<Rightarrow> js_error" where
  "Error m = \<lparr>message = Some (js m)\<rparr>"

text \<open>
  Reading a property, \<^verbatim>\<open>v.k\<close>. Reading from \<^verbatim>\<open>null\<close> throws a TypeError
  (the message is V8's); an object gives its own property or \<^verbatim>\<open>undefined\<close>; a
  boolean, number, string or array gives \<^verbatim>\<open>undefined\<close>. The handler reads only
  \<^verbatim>\<open>notes\<close> and \<^verbatim>\<open>actionItems\<close>, names that no prototype, array or string
  defines.
\<close>

definition apostrophe :: "16 word" where
  "apostrophe = 0x27"

definition null_read_error :: "jsstring \<Rightarrow> js_error" where
  "null_read_error k =
     \<lparr>message = Some (js ''Cannot read properties of null (reading '' @ [apostrophe] @ k
        @ [apostrophe] @ js '')'')\<rparr>"

fun get_prop :: "json \<Rightarrow> jsstring \<Rightarrow> js_error + json option" where
  "get_prop JNull k = Inl (null_read_error k)"
| "get_prop (JObj m) k = Inr (fmlookup m k)"
| "get_prop v k = Inr None"

text \<open>
  Assigning a property, \<^verbatim>\<open>v.k = x\<close>. The handler assigns only after it has read an
  array from the same property, so only the object case is ever reached.
\<close>

fun set_prop :: "json \<Rightarrow> jsstring \<Rightarrow> json \<Rightarrow> json" where
  "set_prop (JObj m) k x = JObj (fmupd k x m)"
| "set_prop v k x = v"

subsection \<open>Strings\<close>

text \<open>
  \<^verbatim>\<open>String.prototype.trim\<close> removes leading and trailing WhiteSpace and
  LineTerminator code points; all of them are single code units.
\<close>

definition is_white_space :: "16 word \<Rightarrow> bool" where
  "is_white_space c =
     (c = 0x0009 \<or> c = 0x000A \<or> c = 0x000B \<or> c = 0x000C \<or> c = 0x000D \<or> c = 0x0020
      \<or> c = 0x00A0 \<or> c = 0x1680 \<or> (0x2000 \<le> c \<and> c \<le> 0x200A) \<or> c = 0x2028
      \<or> c = 0x2029 \<or> c = 0x202F \<or> c = 0x205F \<or> c = 0x3000 \<or> c = 0xFEFF)"

definition trim :: "jsstring \<Rightarrow> jsstring" where
  "trim s = rev (dropWhile is_white_space (rev (dropWhile is_white_space s)))"

text \<open>\<^verbatim>\<open>String.prototype.includes\<close>: the argument occurs as a substring.\<close>

fun starts_with :: "'a list \<Rightarrow> 'a list \<Rightarrow> bool" where
  "starts_with s [] = True"
| "starts_with [] (y # ys) = False"
| "starts_with (x # xs) (y # ys) = (x = y \<and> starts_with xs ys)"

fun str_includes :: "'a list \<Rightarrow> 'a list \<Rightarrow> bool" where
  "str_includes [] t = starts_with [] t"
| "str_includes (x # xs) t = (starts_with (x # xs) t \<or> str_includes xs t)"

text \<open>
  Number-to-string conversion inside a template literal, for an integer: its decimal
  digits, with a minus sign when negative. (JavaScript writes integers below \<open>10\<^sup>2\<^sup>1\<close> in
  magnitude this way; an array index and \<^verbatim>\<open>Date.now()\<close> are far smaller.)
\<close>

definition digit :: "nat \<Rightarrow> 16 word" where
  "digit d = of_nat (48 + d)"

function decimal :: "nat \<Rightarrow> jsstring" where
  "decimal n = (if n < 10 then [digit n] else decimal (n div 10) @ [digit (n mod 10)])"
  by pat_completeness auto
termination
  by (relation "measure (\<lambda>n. n)") auto

declare decimal.simps [simp del]

definition Number_toString :: "int \<Rightarrow> jsstring" where
  "Number_toString i = (if i < 0 then 0x2D # decimal (nat (- i)) else decimal (nat i))"

subsection \<open>Object spread\<close>

text \<open>
  The own enumerable properties that \<^verbatim>\<open>...item\<close> copies: the properties of an
  object, the elements of an array under their indices, the code units of a string
  under their indices, and nothing for \<^verbatim>\<open>null\<close>, a boolean or a number.
\<close>

definition index_keys :: "nat \<Rightarrow> jsstring list" where
  "index_keys n = map (\<lambda>i. Number_toString (int i)) [0..<n]"

fun own_props :: "json \<Rightarrow> (jsstring, json) fmap" where
  "own_props (JObj m) = m"
| "own_props (JArr xs) = fmap_of_list (zip (index_keys (length xs)) xs)"
| "own_props (JStr s) = fmap_of_list (zip (index_keys (length s)) (map (\<lambda>c. JStr [c]) s))"
| "own_props v = fmempty"

section \<open>The collaborators of the handler\<close>

text \<open>
  The request sent to \<^verbatim>\<open>groq.chat.completions.create\<close> (lines 59-99): two messages,
  each a role and a content, and the fixed generation parameters.
\<close>

record chat_request =
  messages :: "(jsstring \<times> jsstring) list"
  model :: jsstring
  temperature :: "64 word"
  max_tokens :: nat
  response_format :: jsstring

text \<open>
  What the SDK returns: \<^verbatim>\<open>completion.choices[0]?.message?.content\<close> reads a list of
  choices, each with an optional message, whose content is a string or
  \<^verbatim>\<open>null\<close>.
\<close>

record chat_message =
  content :: "jsstring option"

record choice =
  choice_message :: "chat_message option"

record chat_completion =
  choices :: "choice list"

text \<open>
  The environment of one request: the provider behind
  \<^verbatim>\<open>groq.chat.completions.create\<close>, which throws or returns a completion;
  \<^verbatim>\<open>JSON.parse\<close>, which throws a SyntaxError (\<open>None\<close>) or returns the parsed
  value; and the clock, \<open>now k\<close> being the result of the \<open>k\<close>-th call of
  \<^verbatim>\<open>Date.now()\<close>.
\<close>

record env =
  create :: "chat_request \<Rightarrow> js_error + chat_completion"
  JSON_parse :: "jsstring \<Rightarrow> json option"
  now :: "nat \<Rightarrow> int"

text \<open>
  The effects the handler has on the world: the completion calls it has issued, in
  order, and the number of times it has read the clock.
\<close>

record world =
  calls :: "chat_request list"
  ticks :: nat

definition groq_create :: "env \<Rightarrow> chat_request \<Rightarrow> world \<Rightarrow> (js_error + chat_completion) \<times> world" where
  "groq_create e r w = (create e r, w\<lparr>calls := calls w @ [r]\<rparr>)"

definition Date_now :: "env \<Rightarrow> world \<Rightarrow> int \<times> world" where
  "Date_now e w = (now e (ticks w), w\<lparr>ticks := Suc (ticks w)\<rparr>)"

text \<open>A response: the status set by \<^verbatim>\<open>res.status\<close> (200 when it is not called) and
  the value handed to \<^verbatim>\<open>res.json\<close>.\<close>

record response =
  status :: nat
  body :: json

definition error_response :: "nat \<Rightarrow> string \<Rightarrow> response" where
  "error_response code text = \<lparr>status = code, body = JObj (fmap_of_list [(js ''error'', JStr (js text))])\<rparr>"

section \<open>The handler of POST /api/extract-action-items\<close>

subsection \<open>Reading and validating the notes (lines 37-56)\<close>

text \<open>
  \<^verbatim>\<open>const { notes } = req.body\<close>: \<open>None\<close> is a request whose body was not parsed
  (\<^verbatim>\<open>req.body\<close> undefined), and destructuring \<^verbatim>\<open>undefined\<close> or
  \<^verbatim>\<open>null\<close> throws a TypeError (the message is V8's).
\<close>

definition destructure_error :: "string \<Rightarrow> js_error" where
  "destructure_error what =
     \<lparr>message = Some (js ''Cannot destructure property '' @ [apostrophe] @ js ''notes''
        @ [apostrophe] @ js '' of '' @ [apostrophe] @ js ''req.body'' @ [apostrophe]
        @ js '' as it is '' @ js what @ js ''.'')\<rparr>"

fun destructure_notes :: "json option \<Rightarrow> js_error + json option" where
  "destructure_notes None = Inl (destructure_error ''undefined'')"
| "destructure_notes (Some JNull) = Inl (destructure_error ''null'')"
| "destructure_notes (Some b) = get_prop b (js ''notes'')"

definition invalid_input :: response where
  "invalid_input = error_response 400 ''Invalid input. Please provide meeting notes as a string.''"

definition too_short :: response where
  "too_short = error_response 400 ''Meeting notes too short. Please provide at least 10 characters.''"

definition too_long :: response where
  "too_long = error_response 400 ''Meeting notes too long. Please limit to 50,000 characters.''"

text \<open>
  The three checks, in the order of the source; \<open>Inl\<close> is the response returned
  early, \<open>Inr s\<close> the string that goes on to the completion call.
\<close>

fun string_value :: "json option \<Rightarrow> jsstring" where
  "string_value (Some (JStr s)) = s"
| "string_value v = []"

definition validate :: "json option \<Rightarrow> response + jsstring" where
  "validate notes =
     (if \<not> truthy notes \<or> typeof notes \<noteq> TString then Inl invalid_input
      else if length (trim (string_value notes)) < 10 then Inl too_short
      else if length (string_value notes) > 50000 then Inl too_long
      else Inr (string_value notes))"

subsection \<open>The completion request (lines 59-99)\<close>

definition newline :: char where
  "newline = CHR 0x0A"

fun unlines :: "string list \<Rightarrow> string" where
  "unlines [] = []"
| "unlines [l] = l"
| "unlines (l # ls) = l @ newline # unlines ls"

definition system_prompt :: jsstring where
  \<open>system_prompt = js (unlines
     [''You are an expert assistant that extracts action items from meeting notes. '',
      ''          '',
      ''Analyze the meeting notes and extract ALL action items, tasks, or commitments mentioned.'',
      [],
      ''For each action item, provide:'',
      ''1. task: Clear description of what needs to be done'',
      ''2. assignee: Person'' @ [CHR 0x27] @ ''s name if mentioned (null if not specified)'',
      ''3. priority: Classify as "high", "medium", or "low" based on urgency indicators'',
      ''4. deadline: Any mentioned date/time (null if not specified)'',
      ''5. context: Brief context from the meeting (1 sentence)'',
      [],
      ''IMPORTANT: Respond ONLY with valid JSON. No markdown, no explanations, just the JSON object.'',
      [],
      ''Format:'',
      ''{'',
      ''  "actionItems": ['',
      ''    {'',
      ''      "task": "string",'',
      ''      "assignee": "string or null",'',
      ''      "priority": "high|medium|low",'',
      ''      "deadline": "string or null",'',
      ''      "context": "string"'',
      ''    }'',
      ''  ],'',
      ''  "summary": "One sentence summary of the meeting"'',
      ''}''])\<close>

definition user_prompt :: "jsstring \<Rightarrow> jsstring" where
  "user_prompt notes =
     js (''Extract action items from these meeting notes:'' @ [newline, newline]) @ notes"

text \<open>The temperature 0.3 is the double \<open>0x3FD3333333333333\<close>.\<close>

definition build_request :: "jsstring \<Rightarrow> chat_request" where
  "build_request notes =
     \<lparr>messages = [(js ''system'', system_prompt), (js ''user'', user_prompt notes)],
      model = js ''llama-3.3-70b-versatile'',
      temperature = 0x3FD3333333333333,
      max_tokens = 2000,
      response_format = js ''json_object''\<rparr>"

subsection \<open>Reading and parsing the completion (lines 101-114)\<close>

text \<open>\<^verbatim>\<open>completion.choices[0]?.message?.content\<close>, with \<open>None\<close> for
  \<^verbatim>\<open>undefined\<close> and \<^verbatim>\<open>null\<close>.\<close>

definition response_text :: "chat_completion \<Rightarrow> jsstring option" where
  "response_text c =
     (case choices c of
        [] \<Rightarrow> None
      | ch # rest \<Rightarrow> (case choice_message ch of None \<Rightarrow> None | Some m \<Rightarrow> content m))"

definition require_text :: "jsstring option \<Rightarrow> js_error + jsstring" where
  "require_text responseText =
     (case responseText of
        None \<Rightarrow> Inl (Error ''No response from AI'')
      | Some t \<Rightarrow> if t = [] then Inl (Error ''No response from AI'') else Inr t)"

definition parse_response :: "env \<Rightarrow> jsstring \<Rightarrow> js_error + json" where
  "parse_response e responseText =
     (case JSON_parse e responseText of
        None \<Rightarrow> Inl (Error ''Invalid response format from AI'')
      | Some parsedResponse \<Rightarrow> Inr parsedResponse)"

subsection \<open>Adding ids to the action items (lines 117-122)\<close>

definition item_id :: "int \<Rightarrow> nat \<Rightarrow> jsstring" where
  "item_id t index = js ''item-'' @ Number_toString t @ js ''-'' @ Number_toString (int index)"

text \<open>
  The object literal \<^verbatim>\<open>{ id: ..., ...item }\<close>: the property \<^verbatim>\<open>id\<close> first, then
  the properties of the item, which overwrite a property of the same name.
\<close>

definition with_id :: "jsstring \<Rightarrow> json \<Rightarrow> json" where
  "with_id i item = JObj (fmupd (js ''id'') (JStr i) fmempty ++\<^sub>f own_props item)"

text \<open>
  \<^verbatim>\<open>actionItems.map((item, index) => ...)\<close>: the callback runs once per element, in
  order, and each run reads the clock.
\<close>

fun map_items :: "env \<Rightarrow> nat \<Rightarrow> json list \<Rightarrow> world \<Rightarrow> json list \<times> world" where
  "map_items e index [] w = ([], w)"
| "map_items e index (item # items) w =
     (let (t, w1) = Date_now e w;
          (rest, w2) = map_items e (Suc index) items w1
      in (with_id (item_id t index) item # rest, w2))"

fun array_elements :: "json option \<Rightarrow> json list" where
  "array_elements (Some (JArr xs)) = xs"
| "array_elements v = []"

definition add_ids :: "env \<Rightarrow> json \<Rightarrow> world \<Rightarrow> (js_error + json) \<times> world" where
  "add_ids e parsedResponse w =
     (case get_prop parsedResponse (js ''actionItems'') of
        Inl err \<Rightarrow> (Inl err, w)
      | Inr actionItems \<Rightarrow>
          if truthy actionItems \<and> Array_isArray actionItems
          then (let (items, w1) = map_items e 0 (array_elements actionItems) w
                in (Inr (set_prop parsedResponse (js ''actionItems'') (JArr items)), w1))
          else (Inr parsedResponse, w))"

subsection \<open>The catch block (lines 126-145)\<close>

definition message_includes :: "js_error \<Rightarrow> string \<Rightarrow> bool" where
  "message_includes err t =
     (case message err of None \<Rightarrow> False | Some m \<Rightarrow> str_includes m (js t))"

definition api_configuration_error :: response where
  "api_configuration_error = error_response 500 ''API configuration error. Please contact support.''"

definition too_many_requests :: response where
  "too_many_requests = error_response 429 ''Too many requests. Please try again in a moment.''"

definition failed_to_process :: response where
  "failed_to_process = error_response 500 ''Failed to process meeting notes. Please try again.''"

definition catch_block :: "js_error \<Rightarrow> response" where
  "catch_block err =
     (if message_includes err ''API key'' then api_configuration_error
      else if message_includes err ''rate limit'' then too_many_requests
      else failed_to_process)"

subsection \<open>The handler (lines 35-146)\<close>

text \<open>
  The body of \<^verbatim>\<open>try\<close>: \<open>Inl\<close> is a thrown error, \<open>Inr\<close> the response sent. A
  \<^verbatim>\<open>return res.status(400)...\<close> of the validation leaves before the completion
  call is issued.
\<close>

definition after_completion :: "env \<Rightarrow> chat_completion \<Rightarrow> world \<Rightarrow> (js_error + response) \<times> world" where
  "after_completion e completion w =
     (case require_text (response_text completion) of
        Inl err \<Rightarrow> (Inl err, w)
      | Inr responseText \<Rightarrow>
          (case parse_response e responseText of
             Inl err \<Rightarrow> (Inl err, w)
           | Inr parsedResponse \<Rightarrow>
               (case add_ids e parsedResponse w of
                  (Inl err, w1) \<Rightarrow> (Inl err, w1)
                | (Inr result, w1) \<Rightarrow> (Inr \<lparr>status = 200, body = result\<rparr>, w1))))"

definition try_block :: "env \<Rightarrow> json option \<Rightarrow> world \<Rightarrow> (js_error + response) \<times> world" where
  "try_block e req_body w =
     (case destructure_notes req_body of
        Inl err \<Rightarrow> (Inl err, w)
      | Inr notes \<Rightarrow>
          (case validate notes of
             Inl rejected \<Rightarrow> (Inr rejected, w)
           | Inr text \<Rightarrow>
               (case groq_create e (build_request text) w of
                  (Inl err, w1) \<Rightarrow> (Inl err, w1)
                | (Inr completion, w1) \<Rightarrow> after_completion e completion w1)))"

definition handler :: "env \<Rightarrow> json option \<Rightarrow> world \<Rightarrow> response \<times> world" where
  "handler e req_body w =
     (case try_block e req_body w of
        (Inl err, w1) \<Rightarrow> (catch_block err, w1)
      | (Inr sent, w1) \<Rightarrow> (sent, w1))"

section \<open>Example requests and environments\<close>

text \<open>
  Concrete inputs on which the theorems below are instantiated: clocks (one that stands
  still, one that advances by a millisecond at every reading, one that advances and
  then stands still), a request body with given notes, an environment whose provider
  answers with a given text that \<^verbatim>\<open>JSON.parse\<close> reads as a given value (and rejects
  every other text), an environment whose provider throws, and the world before the
  request.
\<close>

definition frozen :: "int \<Rightarrow> nat \<Rightarrow> int" where
  "frozen t k = t"

definition ticking :: "int \<Rightarrow> nat \<Rightarrow> int" where
  "ticking t k = t + int k"

definition stopping :: "int \<Rightarrow> nat \<Rightarrow> nat \<Rightarrow> int" where
  "stopping t n k = t + int (min k n)"

definition body_with_notes :: "json \<Rightarrow> json option" where
  "body_with_notes v = Some (JObj (fmap_of_list [(js ''notes'', v)]))"

definition example_body :: "json option" where
  "example_body = body_with_notes (JStr (js ''Alice will send the report by Friday.''))"

definition completion_with :: "jsstring option \<Rightarrow> chat_completion" where
  "completion_with t = \<lparr>choices = [\<lparr>choice_message = Some \<lparr>content = t\<rparr>\<rparr>]\<rparr>"

definition answering :: "jsstring \<Rightarrow> json option \<Rightarrow> (nat \<Rightarrow> int) \<Rightarrow> env" where
  "answering t parsed clock =
     \<lparr>create = (\<lambda>r. Inr (completion_with (Some t))),
      JSON_parse = (\<lambda>x. if x = t then parsed else None),
      now = clock\<rparr>"

definition throwing :: "js_error \<Rightarrow> env" where
  "throwing err =
     \<lparr>create = (\<lambda>r. Inl err), JSON_parse = (\<lambda>x. None), now = frozen 0\<rparr>"

definition fresh :: world where
  "fresh = \<lparr>calls = [], ticks = 0\<rparr>"

text \<open>
  Completion texts and the values \<^verbatim>\<open>JSON.parse\<close> reads from them.
\<close>

definition summary_only_text :: jsstring where
  \<open>summary_only_text = js ''{"summary":"S"}''\<close>

definition summary_only :: json where
  "summary_only = JObj (fmap_of_list [(js ''summary'', JStr (js ''S''))])"

definition two_items_text :: jsstring where
  \<open>two_items_text =
     js ''{"actionItems":[{"task":"A","priority":"urgent"},{"task":"B"}],"summary":"S"}''\<close>

definition two_items :: json where
  "two_items = JObj (fmap_of_list
     [(js ''actionItems'',
       JArr [JObj (fmap_of_list [(js ''task'', JStr (js ''A'')), (js ''priority'', JStr (js ''urgent''))]),
             JObj (fmap_of_list [(js ''task'', JStr (js ''B''))])]),
      (js ''summary'', JStr (js ''S''))])"

definition own_id_text :: jsstring where
  \<open>own_id_text = js ''{"actionItems":[{"id":"mine","task":"A"}]}''\<close>

definition own_id :: json where
  "own_id = JObj (fmap_of_list
     [(js ''actionItems'',
       JArr [JObj (fmap_of_list [(js ''id'', JStr (js ''mine'')), (js ''task'', JStr (js ''A''))])])])"

definition same_ids_text :: jsstring where
  \<open>same_ids_text = js ''{"actionItems":[{"id":"x","task":"A"},{"id":"x","task":"B"}]}''\<close>

definition same_ids :: json where
  "same_ids = JObj (fmap_of_list
     [(js ''actionItems'',
       JArr [JObj (fmap_of_list [(js ''id'', JStr (js ''x'')), (js ''task'', JStr (js ''A''))]),
             JObj (fmap_of_list [(js ''id'', JStr (js ''x'')), (js ''task'', JStr (js ''B''))])])])"

text \<open>
  The elements of the \<^verbatim>\<open>actionItems\<close> array of a value (none when it has no such
  array), and the \<^verbatim>\<open>id\<close> property of each (\<open>None\<close> for an element without one).
\<close>

definition items_of :: "json \<Rightarrow> json list" where
  "items_of v =
     (case get_prop v (js ''actionItems'') of
        Inl err \<Rightarrow> []
      | Inr x \<Rightarrow> array_elements x)"

definition id_of :: "json \<Rightarrow> json option" where
  "id_of item = fmlookup (own_props item) (js ''id'')"

definition ids_of :: "json \<Rightarrow> json option list" where
  "ids_of v = map id_of (items_of v)"

section \<open>Properties of the string operations\<close>

lemma of_char_word_inj: "(of_char c :: 16 word) = of_char d \<longleftrightarrow> c = d"
proof -
  have less: "(of_char x :: nat) < 2 ^ 16" for x
    by (rule less_trans [OF nat_of_char_less_256]) simp
  have "(of_char c :: 16 word) = of_char d \<longleftrightarrow>
        (of_nat (of_char c) :: 16 word) = of_nat (of_char d)"
    by (simp add: of_nat_of_char)
  also have "\<dots> \<longleftrightarrow> (of_char c :: nat) = of_char d"
    using less [of c] less [of d]
    by (simp add: word_of_nat_eq_iff take_bit_nat_eq_self)
  finally show ?thesis by simp
qed

lemma js_eq_iff: "js a = js b \<longleftrightarrow> a = b"
  unfolding js_def
  by (rule inj_map_eq_map) (simp add: inj_on_def of_char_word_inj)

lemma starts_with_iff: "starts_with s t \<longleftrightarrow> (\<exists>r. s = t @ r)"
  by (induction s t rule: starts_with.induct) auto

lemma str_includes_iff: "str_includes s t \<longleftrightarrow> (\<exists>p r. s = p @ t @ r)"
proof (induction s)
  case Nil
  then show ?case by (auto simp: starts_with_iff)
next
  case (Cons x xs)
  have "(\<exists>p r. x # xs = p @ t @ r) \<longleftrightarrow> (\<exists>r. x # xs = t @ r) \<or> (\<exists>p r. xs = p @ t @ r)"
  proof
    assume "\<exists>p r. x # xs = p @ t @ r"
    then obtain p r where pr: "x # xs = p @ t @ r" by blast
    show "(\<exists>r. x # xs = t @ r) \<or> (\<exists>p r. xs = p @ t @ r)"
    proof (cases p)
      case Nil
      with pr show ?thesis by auto
    next
      case (Cons y ys)
      with pr have "xs = ys @ t @ r" by simp
      then show ?thesis by blast
    qed
  next
    assume "(\<exists>r. x # xs = t @ r) \<or> (\<exists>p r. xs = p @ t @ r)"
    then show "\<exists>p r. x # xs = p @ t @ r"
    proof
      assume "\<exists>r. x # xs = t @ r"
      then obtain r where "x # xs = [] @ t @ r" by auto
      then show ?thesis by blast
    next
      assume "\<exists>p r. xs = p @ t @ r"
      then obtain p r where "x # xs = (x # p) @ t @ r" by auto
      then show ?thesis by blast
    qed
  qed
  with Cons show ?case by (simp add: starts_with_iff)
qed

lemma trim_unchanged:
  assumes "s \<noteq> []" "\<not> is_white_space (hd s)" "\<not> is_white_space (last s)"
  shows "trim s = s"
proof -
  from assms have "dropWhile is_white_space s = s"
    by (cases s) auto
  moreover from assms have "dropWhile is_white_space (rev s) = rev s"
    by (cases "rev s") (auto simp: last_rev hd_rev)
  ultimately show ?thesis by (simp add: trim_def)
qed

lemma length_trim_le: "length (trim s) \<le> length s"
  unfolding trim_def
  by (metis length_dropWhile_le length_rev order_trans)

lemma trim_replicate:
  "\<not> is_white_space c \<Longrightarrow> trim (replicate n c) = replicate n c"
  by (simp add: trim_def)

text \<open>
  The decimal rendering of an index is injective and holds no minus sign, so the index
  can be read back from the end of a generated id, whatever the timestamp before it.
\<close>

lemma digit_inj: "a < 10 \<Longrightarrow> b < 10 \<Longrightarrow> digit a = digit b \<longleftrightarrow> a = b"
  by (simp add: digit_def word_of_nat_eq_iff take_bit_nat_eq_self)

lemma digit_not_minus: "a < 10 \<Longrightarrow> digit a \<noteq> 0x2D"
proof -
  assume "a < 10"
  then have "take_bit 16 (48 + a) = 48 + a" by (simp add: take_bit_nat_eq_self)
  moreover have "(0x2D :: 16 word) = of_nat 45" by simp
  ultimately show ?thesis
    unfolding digit_def by (simp only: word_of_nat_eq_iff) simp
qed

lemma decimal_nonempty: "decimal n \<noteq> []"
  by (subst decimal.simps) simp

lemma decimal_small: "n < 10 \<Longrightarrow> decimal n = [digit n]"
  by (subst decimal.simps) simp

lemma decimal_large: "\<not> n < 10 \<Longrightarrow> decimal n = decimal (n div 10) @ [digit (n mod 10)]"
  by (subst decimal.simps) simp

lemma minus_not_in_decimal: "0x2D \<notin> set (decimal n)"
proof (induction n rule: decimal.induct)
  case (1 n)
  show ?case
  proof (cases "n < 10")
    case True
    then show ?thesis using digit_not_minus [of n] by (auto simp: decimal_small)
  next
    case False
    with 1 digit_not_minus [of "n mod 10"] show ?thesis
      by (auto simp: decimal_large)
  qed
qed

lemma decimal_inj: "decimal n = decimal m \<Longrightarrow> n = m"
proof (induction n arbitrary: m rule: decimal.induct)
  case (1 n)
  show ?case
  proof (cases "n < 10")
    case n: True
    show ?thesis
    proof (cases "m < 10")
      case True
      with n "1.prems" show ?thesis by (simp add: decimal_small digit_inj)
    next
      case False
      with n "1.prems" decimal_nonempty [of "m div 10"] show ?thesis
        by (simp add: decimal_small decimal_large)
    qed
  next
    case n: False
    show ?thesis
    proof (cases "m < 10")
      case True
      with n "1.prems" decimal_nonempty [of "n div 10"] show ?thesis
        by (simp add: decimal_small decimal_large)
    next
      case False
      with n "1.prems" have eq: "decimal (n div 10) = decimal (m div 10)"
          "digit (n mod 10) = digit (m mod 10)"
        by (simp_all add: decimal_large)
      from "1.IH" [OF n eq(1)] have "n div 10 = m div 10" .
      moreover from eq(2) have "n mod 10 = m mod 10" by (simp add: digit_inj)
      ultimately show ?thesis by (metis div_mult_mod_eq)
    qed
  qed
qed

lemma suffix_after_last:
  assumes "xs @ c # ys = xs' @ c # ys'" and "c \<notin> set ys" and "c \<notin> set ys'"
  shows "ys = ys'"
proof -
  have *: "takeWhile (\<lambda>x. x \<noteq> c) (rev (us @ c # vs)) = rev vs" if "c \<notin> set vs" for us vs
    using that by (simp, subst takeWhile_append2) auto
  from assms(1) have "takeWhile (\<lambda>x. x \<noteq> c) (rev (xs @ c # ys))
      = takeWhile (\<lambda>x. x \<noteq> c) (rev (xs' @ c # ys'))"
    by simp
  with * [OF assms(2)] * [OF assms(3)] show ?thesis by simp
qed

lemma item_id_index_inj: "item_id t i = item_id t' j \<Longrightarrow> i = j"
proof -
  assume "item_id t i = item_id t' j"
  moreover have "js ''-'' = [0x2D]" by (simp add: js_def)
  ultimately have "(js ''item-'' @ Number_toString t) @ 0x2D # decimal i
      = (js ''item-'' @ Number_toString t') @ 0x2D # decimal j"
    by (simp add: item_id_def Number_toString_def)
  then have "decimal i = decimal j"
    by (rule suffix_after_last) (rule minus_not_in_decimal)+
  then show "i = j" by (rule decimal_inj)
qed

section \<open>The paths through the handler\<close>

lemma handler_rejected:
  "destructure_notes b = Inr notes \<Longrightarrow> validate notes = Inl r \<Longrightarrow> handler e b w = (r, w)"
  by (simp add: handler_def try_block_def)

lemma handler_provider_throws:
  "destructure_notes b = Inr notes \<Longrightarrow> validate notes = Inr s \<Longrightarrow>
   create e (build_request s) = Inl err \<Longrightarrow>
   handler e b w = (catch_block err, w\<lparr>calls := calls w @ [build_request s]\<rparr>)"
  by (simp add: handler_def try_block_def groq_create_def)

lemma handler_completed:
  "destructure_notes b = Inr notes \<Longrightarrow> validate notes = Inr s \<Longrightarrow>
   create e (build_request s) = Inr c \<Longrightarrow>
   handler e b w =
     (case after_completion e c (w\<lparr>calls := calls w @ [build_request s]\<rparr>) of
        (Inl err, w1) \<Rightarrow> (catch_block err, w1)
      | (Inr sent, w1) \<Rightarrow> (sent, w1))"
  by (simp add: handler_def try_block_def groq_create_def)

lemma after_completion_parsed:
  "response_text c = Some t \<Longrightarrow> t \<noteq> [] \<Longrightarrow> JSON_parse e t = Some p \<Longrightarrow>
   after_completion e c w =
     (case add_ids e p w of
        (Inl err, w1) \<Rightarrow> (Inl err, w1)
      | (Inr result, w1) \<Rightarrow> (Inr \<lparr>status = 200, body = result\<rparr>, w1))"
  by (simp add: after_completion_def require_text_def parse_response_def)



lemma message_includes_iff:
  "message_includes err t \<longleftrightarrow> (\<exists>m p r. message err = Some m \<and> m = p @ js t @ r)"
  by (cases "message err") (auto simp: message_includes_def str_includes_iff)



lemma catch_null_read: "catch_block (null_read_error (js ''actionItems'')) = failed_to_process"
  by (simp add: catch_block_def message_includes_def null_read_error_def js_def apostrophe_def)

lemma catch_destructure:
  "catch_block (destructure_error ''undefined'') = failed_to_process"
  "catch_block (destructure_error ''null'') = failed_to_process"
  by (simp_all add: catch_block_def message_includes_def destructure_error_def js_def apostrophe_def)

lemma validate_cases:
  "validate n =
     (if typeof n \<noteq> TString \<or> n = Some (JStr []) then Inl invalid_input
      else if length (trim (string_value n)) < 10 then Inl too_short
      else if length (string_value n) > 50000 then Inl too_long
      else Inr (string_value n))"
  by (cases n rule: typeof.cases) (simp_all add: validate_def)

lemma status_catch_block: "status (catch_block err) \<noteq> 400"
  by (simp add: catch_block_def api_configuration_error_def too_many_requests_def
      failed_to_process_def error_response_def)

lemma map_items_calls: "calls (snd (map_items e i xs w)) = calls w"
  by (induction xs arbitrary: i w) (simp_all add: Date_now_def split_beta)

lemma map_items_ticks: "ticks (snd (map_items e i xs w)) = ticks w + length xs"
  by (induction xs arbitrary: i w) (simp_all add: Date_now_def split_beta)

lemma map_items_length: "length (fst (map_items e i xs w)) = length xs"
  by (induction xs arbitrary: i w) (simp_all add: Date_now_def split_beta)

lemma add_ids_calls: "calls (snd (add_ids e p w)) = calls w"
  using map_items_calls [of e 0 _ w]
  by (simp add: add_ids_def split_beta split: sum.splits)

lemma after_completion_calls: "calls (snd (after_completion e c w)) = calls w"
proof -
  have "calls (snd (case add_ids e p w of (Inl err, w1) \<Rightarrow> (Inl err, w1)
      | (Inr result, w1) \<Rightarrow> (Inr \<lparr>status = 200, body = result\<rparr>, w1))) = calls w" for p
    using add_ids_calls [of e p w] by (cases "add_ids e p w") (auto split: sum.splits)
  then show ?thesis
    by (simp add: after_completion_def split: sum.splits)
qed

lemma after_completion_status:
  "after_completion e c w = (Inr r, w1) \<Longrightarrow> status r = 200"
  by (auto simp: after_completion_def split: sum.splits prod.splits)

lemma error_response_eq_iff:
  "error_response c a = error_response d b \<longleftrightarrow> c = d \<and> a = b"
proof
  assume eq: "error_response c a = error_response d b"
  then have "status (error_response c a) = status (error_response d b)" by simp
  then have cd: "c = d" by (simp add: error_response_def)
  from eq have "body (error_response c a) = body (error_response d b)" by simp
  then have "fmlookup (fmap_of_list [(js ''error'', JStr (js a))]) (js ''error'')
      = fmlookup (fmap_of_list [(js ''error'', JStr (js b))]) (js ''error'')"
    by (simp add: error_response_def)
  then have "a = b" by (simp add: js_eq_iff)
  with cd show "c = d \<and> a = b" by simp
qed simp

lemma validate_rejects_400: "validate n = Inl r \<Longrightarrow> status r = 400"
  by (auto simp: validate_def invalid_input_def too_short_def too_long_def error_response_def
      split: if_splits)

lemma status_catch_block_200: "status (catch_block err) \<noteq> 200"
  by (simp add: catch_block_def api_configuration_error_def too_many_requests_def
      failed_to_process_def error_response_def)

lemma handler_calls_cases:
  "(calls (snd (handler e b w)) = calls w \<and> status (fst (handler e b w)) \<noteq> 200)
   \<or> (\<exists>s. calls (snd (handler e b w)) = calls w @ [build_request s]
         \<and> status (fst (handler e b w)) \<noteq> 400)"
proof (cases "destructure_notes b")
  case (Inl err)
  then have "handler e b w = (catch_block err, w)"
    by (simp add: handler_def try_block_def)
  then show ?thesis by (simp add: status_catch_block_200)
next
  case (Inr n)
  show ?thesis
  proof (cases "validate n")
    case (Inl r)
    with Inr have "handler e b w = (r, w)" by (rule handler_rejected)
    with Inl show ?thesis by (simp add: validate_rejects_400)
  next
    case validated: (Inr s)
    let ?w1 = "w\<lparr>calls := calls w @ [build_request s]\<rparr>"
    have "calls (snd (handler e b w)) = calls w @ [build_request s]
         \<and> status (fst (handler e b w)) \<noteq> 400"
    proof (cases "create e (build_request s)")
      case (Inl err)
      with Inr validated have "handler e b w = (catch_block err, ?w1)"
        by (simp add: handler_provider_throws)
      then show ?thesis by (simp add: status_catch_block)
    next
      case (Inr c)
      with \<open>destructure_notes b = Inr n\<close> validated
      have h: "handler e b w =
          (case after_completion e c ?w1 of
             (Inl err, w1) \<Rightarrow> (catch_block err, w1)
           | (Inr sent, w1) \<Rightarrow> (sent, w1))"
        by (rule handler_completed)
      obtain x w2 where ac: "after_completion e c ?w1 = (x, w2)"
        by (cases "after_completion e c ?w1")
      from after_completion_calls [of e c ?w1] ac
      have w2: "calls w2 = calls w @ [build_request s]" by simp
      show ?thesis
      proof (cases x)
        case (Inl err)
        with h ac w2 show ?thesis by (simp add: status_catch_block)
      next
        case (Inr r)
        with ac have "status r = 200" by (simp add: after_completion_status)
        with Inr h ac w2 show ?thesis by simp
      qed
    qed
    then show ?thesis by blast
  qed
qed

lemma handler_passes:
  assumes "destructure_notes b = Inr n" "validate n = Inr s"
  shows "status (fst (handler e b w)) \<noteq> 400
     \<and> calls (snd (handler e b w)) = calls w @ [build_request s]"
proof (cases "create e (build_request s)")
  case (Inl err)
  with assms show ?thesis
    by (simp add: handler_provider_throws status_catch_block)
next
  case (Inr c)
  let ?w1 = "w\<lparr>calls := calls w @ [build_request s]\<rparr>"
  from assms Inr have h: "handler e b w =
      (case after_completion e c ?w1 of
         (Inl err, w1) \<Rightarrow> (catch_block err, w1)
       | (Inr sent, w1) \<Rightarrow> (sent, w1))"
    by (rule handler_completed)
  obtain x w2 where ac: "after_completion e c ?w1 = (x, w2)"
    by (cases "after_completion e c ?w1")
  from after_completion_calls [of e c ?w1] ac
  have w2: "calls w2 = calls w @ [build_request s]" by simp
  show ?thesis
  proof (cases x)
    case (Inl err)
    with h ac w2 show ?thesis by (simp add: status_catch_block)
  next
    case (Inr r)
    with ac have "status r = 200" by (simp add: after_completion_status)
    with Inr h ac w2 show ?thesis by simp
  qed
qed

lemma handler_catches:
  "try_block e b w = (Inl err, w1) \<Longrightarrow> handler e b w = (catch_block err, w1)"
  by (simp add: handler_def)



lemma get_prop_not_null: "p \<noteq> JNull \<Longrightarrow> \<exists>x. get_prop p k = Inr x"
  by (cases p) simp_all

lemma get_prop_array_is_object:
  "get_prop p k = Inr (Some x) \<Longrightarrow> \<exists>m. p = JObj m \<and> fmlookup m k = Some x"
  by (cases p) simp_all

lemma add_ids_null:
  "add_ids e JNull w = (Inl (null_read_error (js ''actionItems'')), w)"
  by (simp add: add_ids_def)

lemma add_ids_array:
  "get_prop p (js ''actionItems'') = Inr (Some (JArr xs)) \<Longrightarrow>
   add_ids e p w =
     (Inr (set_prop p (js ''actionItems'') (JArr (fst (map_items e 0 xs w)))),
      snd (map_items e 0 xs w))"
  by (simp add: add_ids_def split_beta)

lemma add_ids_unchanged:
  "get_prop p (js ''actionItems'') = Inr x \<Longrightarrow> \<not> Array_isArray x \<Longrightarrow>
   add_ids e p w = (Inr p, w)"
  by (simp add: add_ids_def)

lemma handler_parsed:
  assumes "destructure_notes b = Inr n" "validate n = Inr s"
    "create e (build_request s) = Inr c" "response_text c = Some t" "t \<noteq> []"
    "JSON_parse e t = Some p"
  shows "handler e b w =
     (case add_ids e p (w\<lparr>calls := calls w @ [build_request s]\<rparr>) of
        (Inl err, w1) \<Rightarrow> (catch_block err, w1)
      | (Inr result, w1) \<Rightarrow> (\<lparr>status = 200, body = result\<rparr>, w1))"
  by (simp add: handler_completed [OF assms(1-3)] after_completion_parsed [OF assms(4-6)]
      split: prod.splits sum.splits)

lemma map_items_nth:
  "i < length xs \<Longrightarrow>
   fst (map_items e j xs w) ! i = with_id (item_id (now e (ticks w + i)) (j + i)) (xs ! i)"
proof (induction xs arbitrary: i j w)
  case Nil
  then show ?case by simp
next
  case (Cons x xs)
  show ?case
  proof (cases i)
    case 0
    then show ?thesis by (simp add: Date_now_def split_beta)
  next
    case (Suc k)
    with Cons.prems have "k < length xs" by simp
    from Cons.IH [OF this, of "Suc j" "w\<lparr>ticks := Suc (ticks w)\<rparr>"] Suc
    show ?thesis by (simp add: Date_now_def split_beta)
  qed
qed

lemma lookup_with_id:
  "fmlookup (own_props (with_id s item)) k =
     (if k |\<in>| fmdom (own_props item) then fmlookup (own_props item) k
      else if k = js ''id'' then Some (JStr s) else None)"
  by (simp add: with_id_def)

lemma with_id_keeps:
  "fmlookup (own_props item) k = Some v \<Longrightarrow> fmlookup (own_props (with_id s item)) k = Some v"
  by (simp add: lookup_with_id fmdomI)

lemma with_id_frame:
  "k \<noteq> js ''id'' \<Longrightarrow> fmlookup (own_props (with_id s item)) k = fmlookup (own_props item) k"
  by (auto simp add: lookup_with_id fmdom_notD)

lemma with_id_adds:
  "fmlookup (own_props item) (js ''id'') = None \<Longrightarrow>
   with_id s item = JObj (fmupd (js ''id'') (JStr s) (own_props item))"
  apply (simp add: with_id_def)
  apply (rule fmap_ext)
  apply (auto simp: fmdom_notD)
  done

lemma after_completion_200:
  assumes "after_completion e c w = (Inr r, w1)"
  shows "\<exists>t p. response_text c = Some t \<and> t \<noteq> [] \<and> JSON_parse e t = Some p
     \<and> add_ids e p w = (Inr (body r), w1) \<and> status r = 200"
proof -
  from assms obtain t where t: "require_text (response_text c) = Inr t"
    by (auto simp: after_completion_def split: sum.splits)
  then have rt: "response_text c = Some t \<and> t \<noteq> []"
    by (auto simp: require_text_def split: option.splits if_splits)
  from assms t obtain p where p: "parse_response e t = Inr p"
    by (auto simp: after_completion_def split: sum.splits)
  then have jp: "JSON_parse e t = Some p"
    by (auto simp: parse_response_def split: option.splits)
  from assms t p have "add_ids e p w = (Inr (body r), w1) \<and> status r = 200"
    by (auto simp: after_completion_def split: sum.splits prod.splits)
  with rt jp show ?thesis by blast
qed

lemma handler_200:
  assumes "handler e b w = (r, w1)" and "status r = 200"
  shows "\<exists>n s c t p. destructure_notes b = Inr n \<and> validate n = Inr s
     \<and> create e (build_request s) = Inr c
     \<and> response_text c = Some t \<and> t \<noteq> [] \<and> JSON_parse e t = Some p
     \<and> add_ids e p (w\<lparr>calls := calls w @ [build_request s]\<rparr>) = (Inr (body r), w1)"
proof (cases "destructure_notes b")
  case (Inl err)
  then have "handler e b w = (catch_block err, w)"
    by (simp add: handler_def try_block_def)
  with assms status_catch_block_200 [of err] show ?thesis by auto
next
  case (Inr n)
  show ?thesis
  proof (cases "validate n")
    case (Inl rej)
    with Inr have "handler e b w = (rej, w)" by (rule handler_rejected)
    with assms validate_rejects_400 [OF Inl] show ?thesis by auto
  next
    case validated: (Inr s)
    let ?w1 = "w\<lparr>calls := calls w @ [build_request s]\<rparr>"
    show ?thesis
    proof (cases "create e (build_request s)")
      case (Inl err)
      with Inr validated have "handler e b w = (catch_block err, ?w1)"
        by (simp add: handler_provider_throws)
      with assms status_catch_block_200 [of err] show ?thesis by auto
    next
      case created: (Inr c)
      with Inr validated
      have h: "handler e b w =
          (case after_completion e c ?w1 of
             (Inl err, w1) \<Rightarrow> (catch_block err, w1)
           | (Inr sent, w1) \<Rightarrow> (sent, w1))"
        by (rule handler_completed)
      obtain x w2 where ac: "after_completion e c ?w1 = (x, w2)"
        by (cases "after_completion e c ?w1")
      show ?thesis
      proof (cases x)
        case (Inl err)
        with h ac have "handler e b w = (catch_block err, w2)" by simp
        with assms status_catch_block_200 [of err] show ?thesis by auto
      next
        case sent: (Inr r')
        with h ac assms have "r' = r" "w2 = w1" by simp_all
        with ac sent have "after_completion e c ?w1 = (Inr r, w1)" by simp
        from after_completion_200 [OF this] Inr validated created
        show ?thesis by blast
      qed
    qed
  qed
qed

lemma get_set_prop_same:
  "get_prop p k = Inr (Some x) \<Longrightarrow> get_prop (set_prop p k y) k = Inr (Some y)"
  by (cases p) simp_all

lemma get_set_prop_other:
  "k' \<noteq> k \<Longrightarrow> get_prop (set_prop p k y) k' = get_prop p k'"
  by (cases p) simp_all

lemma items_of_set_prop:
  "get_prop p (js ''actionItems'') = Inr (Some x) \<Longrightarrow>
   items_of (set_prop p (js ''actionItems'') (JArr ys)) = ys"
  by (simp add: items_of_def get_set_prop_same)

lemma ids_of_set_prop:
  "get_prop p (js ''actionItems'') = Inr (Some x) \<Longrightarrow>
   ids_of (set_prop p (js ''actionItems'') (JArr ys)) = map id_of ys"
  by (simp add: ids_of_def items_of_set_prop)

lemma map_items_world: "snd (map_items e j xs w) = w\<lparr>ticks := ticks w + length xs\<rparr>"
  by (induction xs arbitrary: j w) (simp_all add: Date_now_def split_beta)

lemma map_items_same_readings:
  assumes "\<forall>i<length xs. now e' (ticks w + i) = now e (ticks w + i)"
  shows "fst (map_items e' j xs w) = fst (map_items e j xs w)"
proof (rule nth_equalityI)
  show "length (fst (map_items e' j xs w)) = length (fst (map_items e j xs w))"
    by (simp add: map_items_length)
next
  fix i assume "i < length (fst (map_items e' j xs w))"
  then have "i < length xs" by (simp add: map_items_length)
  with assms show "fst (map_items e' j xs w) ! i = fst (map_items e j xs w) ! i"
    by (simp add: map_items_nth)
qed

lemma handler_items:
  assumes "destructure_notes b = Inr n" and "validate n = Inr s"
    and "create e (build_request s) = Inr c"
    and "response_text c = Some t" and "t \<noteq> []" and "JSON_parse e t = Some p"
    and "get_prop p (js ''actionItems'') = Inr (Some (JArr xs))"
  shows "handler e b w =
     (\<lparr>status = 200,
       body = set_prop p (js ''actionItems'')
                (JArr (fst (map_items e 0 xs (w\<lparr>calls := calls w @ [build_request s]\<rparr>))))\<rparr>,
      w\<lparr>calls := calls w @ [build_request s], ticks := ticks w + length xs\<rparr>)"
  by (simp add: handler_parsed [OF assms(1-6)] add_ids_array [OF assms(7)] map_items_world)

lemma handler_item_nth:
  assumes "destructure_notes b = Inr n" and "validate n = Inr s"
    and "create e (build_request s) = Inr c"
    and "response_text c = Some t" and "t \<noteq> []" and "JSON_parse e t = Some p"
    and "get_prop p (js ''actionItems'') = Inr (Some (JArr xs))"
    and "i < length xs"
  shows "items_of (body (fst (handler e b w))) ! i
     = with_id (item_id (now e (ticks w + i)) i) (xs ! i)"
  using assms(8)
  by (simp add: handler_items [OF assms(1-7)] items_of_set_prop [OF assms(7)] map_items_nth)

lemma handler_items_length:
  assumes "destructure_notes b = Inr n" and "validate n = Inr s"
    and "create e (build_request s) = Inr c"
    and "response_text c = Some t" and "t \<noteq> []" and "JSON_parse e t = Some p"
    and "get_prop p (js ''actionItems'') = Inr (Some (JArr xs))"
  shows "length (items_of (body (fst (handler e b w)))) = length xs"
  by (simp add: handler_items [OF assms(1-7)] items_of_set_prop [OF assms(7)] map_items_length)

text \<open>
  What lines 118-121 do for an item that carries no \<^verbatim>\<open>id\<close> of its own: it is
  replaced by a new object, the item plus the generated id.
\<close>

lemma injected_id:
  assumes "destructure_notes b = Inr n" and "validate n = Inr s"
    and "create e (build_request s) = Inr c"
    and "response_text c = Some t" and "t \<noteq> []" and "JSON_parse e t = Some p"
    and "get_prop p (js ''actionItems'') = Inr (Some (JArr xs))"
    and "i < length xs" and "id_of (xs ! i) = None"
  shows "items_of (body (fst (handler e b w))) ! i
     = JObj (fmupd (js ''id'') (JStr (item_id (now e (ticks w + i)) i)) (own_props (xs ! i)))"
  using assms(9)
  by (simp add: handler_item_nth [OF assms(1-8)] with_id_adds id_of_def)

text \<open>
  When no item carries an \<^verbatim>\<open>id\<close> of its own, no two items of the result share an id.
\<close>

lemma ids_distinct:
  assumes "destructure_notes b = Inr n" and "validate n = Inr s"
    and "create e (build_request s) = Inr c"
    and "response_text c = Some t" and "t \<noteq> []" and "JSON_parse e t = Some p"
    and "get_prop p (js ''actionItems'') = Inr (Some (JArr xs))"
    and "\<forall>i<length xs. id_of (xs ! i) = None"
  shows "distinct (ids_of (body (fst (handler e b w))))"
proof -
  note len = handler_items_length [OF assms(1-7), of w]
  have nth: "ids_of (body (fst (handler e b w))) ! i
      = Some (JStr (item_id (now e (ticks w + i)) i))" if "i < length xs" for i
    using that assms(8)
    by (simp add: ids_of_def len handler_item_nth [OF assms(1-7)] id_of_def lookup_with_id
        fmdom_notI)
  show ?thesis
    unfolding distinct_conv_nth
  proof (intro allI impI)
    fix i j
    assume "i < length (ids_of (body (fst (handler e b w))))"
      and "j < length (ids_of (body (fst (handler e b w))))" and "i \<noteq> j"
    then have ij: "i < length xs" "j < length xs" by (simp_all add: ids_of_def len)
    show "ids_of (body (fst (handler e b w))) ! i \<noteq> ids_of (body (fst (handler e b w))) ! j"
    proof
      assume "ids_of (body (fst (handler e b w))) ! i = ids_of (body (fst (handler e b w))) ! j"
      with nth [OF ij(1)] nth [OF ij(2)]
      have "item_id (now e (ticks w + i)) i = item_id (now e (ticks w + j)) j" by simp
      then have "i = j" by (rule item_id_index_inj)
      with \<open>i \<noteq> j\<close> show False by simp
    qed
  qed
qed

section \<open>The examples, evaluated\<close>

lemma destructure_body_with_notes: "destructure_notes (body_with_notes v) = Inr (Some v)"
  by (simp add: body_with_notes_def)

lemma trim_example: "trim (js ''Alice will send the report by Friday.'') = js ''Alice will send the report by Friday.''"
  by (rule trim_unchanged) (simp_all add: js_def is_white_space_def)

lemma validate_example:
  "validate (Some (JStr (js ''Alice will send the report by Friday.''))) = Inr (js ''Alice will send the report by Friday.'')"
  by (simp add: validate_cases trim_example) (simp add: js_def)

lemma example_body_validates:
  "destructure_notes example_body = Inr (Some (JStr (js ''Alice will send the report by Friday.'')))"
  "validate (Some (JStr (js ''Alice will send the report by Friday.''))) = Inr (js ''Alice will send the report by Friday.'')"
  by (simp_all add: example_body_def destructure_body_with_notes validate_example)

lemma validate_long_example:
  "validate (Some (JStr (replicate 50000 0x61))) = Inr (replicate 50000 0x61)"
  by (simp add: validate_cases trim_replicate is_white_space_def)

lemma validate_too_long_example:
  "validate (Some (JStr (replicate 50001 0x61))) = Inl too_long"
  by (simp add: validate_cases trim_replicate is_white_space_def)

lemma trim_ten: "trim (js ''  0123456789 '') = js ''0123456789''"
  by (simp add: trim_def js_def is_white_space_def)

lemma response_text_completion_with: "response_text (completion_with t) = t"
  by (simp add: response_text_def completion_with_def)

lemma answering_run:
  "create (answering t parsed clock) r = Inr (completion_with (Some t))"
  "response_text (completion_with (Some t)) = Some t"
  "JSON_parse (answering t parsed clock) t = parsed"
  by (simp_all add: answering_def response_text_completion_with)

lemma now_answering: "now (answering t parsed clock) = clock"
  by (simp add: answering_def)

lemma example_texts_nonempty:
  "summary_only_text \<noteq> []" "two_items_text \<noteq> []" "own_id_text \<noteq> []" "same_ids_text \<noteq> []"
  "js ''null'' \<noteq> []"
  by (simp_all add: summary_only_text_def two_items_text_def own_id_text_def same_ids_text_def js_def)

lemma examples_not_null: "summary_only \<noteq> JNull" "two_items \<noteq> JNull"
  by (simp_all add: summary_only_def two_items_def)

lemma get_prop_examples:
  "get_prop summary_only (js ''actionItems'') = Inr None"
  "get_prop two_items (js ''actionItems'') = Inr (Some (JArr
      [JObj (fmap_of_list [(js ''task'', JStr (js ''A'')), (js ''priority'', JStr (js ''urgent''))]),
       JObj (fmap_of_list [(js ''task'', JStr (js ''B''))])]))"
  "get_prop own_id (js ''actionItems'') = Inr (Some (JArr
      [JObj (fmap_of_list [(js ''id'', JStr (js ''mine'')), (js ''task'', JStr (js ''A''))])]))"
  "get_prop same_ids (js ''actionItems'') = Inr (Some (JArr
      [JObj (fmap_of_list [(js ''id'', JStr (js ''x'')), (js ''task'', JStr (js ''A''))]),
       JObj (fmap_of_list [(js ''id'', JStr (js ''x'')), (js ''task'', JStr (js ''B''))])]))"
  by (simp_all add: summary_only_def two_items_def own_id_def same_ids_def js_eq_iff)

lemma handler_answering:
  assumes "t \<noteq> []"
  shows "handler (answering t (Some p) clock) example_body fresh =
     (case add_ids (answering t (Some p) clock) p
             \<lparr>calls = [build_request (js ''Alice will send the report by Friday.'')], ticks = 0\<rparr> of
        (Inl err, w1) \<Rightarrow> (catch_block err, w1)
      | (Inr result, w1) \<Rightarrow> (\<lparr>status = 200, body = result\<rparr>, w1))"
  by (simp add: handler_parsed [OF example_body_validates answering_run(1) answering_run(2)
        assms answering_run(3)] fresh_def)

lemma two_items_status:
  "status (fst (handler (answering two_items_text (Some two_items) (ticking 1000)) example_body fresh)) = 200"
  by (simp add: handler_answering [OF example_texts_nonempty(2)] add_ids_array [OF get_prop_examples(2)])

lemma item_id_examples:
  "item_id 1000 0 = js ''item-1000-0''"
  "item_id 1000 1 = js ''item-1000-1''"
  "item_id 1001 1 = js ''item-1001-1''"
  "item_id 1000 (Suc 0) = js ''item-1000-1''"
  "item_id 1001 (Suc 0) = js ''item-1001-1''"
  by (simp_all add: item_id_def Number_toString_def decimal.simps js_def digit_def)

lemma two_items_frozen_ids:
  "ids_of (body (fst (handler (answering two_items_text (Some two_items) (frozen 1000))
      example_body fresh)))
     = [Some (JStr (js ''item-1000-0'')), Some (JStr (js ''item-1000-1''))]"
  by (simp add: handler_answering [OF example_texts_nonempty(2)]
      add_ids_array [OF get_prop_examples(2)] ids_of_set_prop [OF get_prop_examples(2)]
      Date_now_def now_answering frozen_def id_of_def lookup_with_id js_eq_iff item_id_examples)

lemma two_items_ids: "ids_of two_items = [None, None]"
  by (simp add: ids_of_def items_of_def id_of_def get_prop_examples js_eq_iff)

lemma two_items_ticking_ids:
  "ids_of (body (fst (handler (answering two_items_text (Some two_items) (ticking 1000))
      example_body fresh)))
     = [Some (JStr (js ''item-1000-0'')), Some (JStr (js ''item-1001-1''))]"
  by (simp add: handler_answering [OF example_texts_nonempty(2)]
      add_ids_array [OF get_prop_examples(2)] ids_of_set_prop [OF get_prop_examples(2)]
      Date_now_def now_answering ticking_def id_of_def lookup_with_id js_eq_iff item_id_examples)

section \<open>The action items of a response\<close>

text \<open>
  Claim C1, as amended. Every response with status 200 carries the parsed completion of
  the request, and its \<^verbatim>\<open>actionItems\<close> field is as the completion gave it: when
  the parsed value has an array there, the body has an array of the same length (the
  empty array for the empty array); when the parsed value has no such field, or one that
  is not an array, the body is the parsed value itself, so that the field is absent or
  is not an array in the response too.
\<close>

theorem action_items_of_response:
  assumes "handler e b w = (r, w1)" and "status r = 200"
  shows "\<exists>n s c t p. destructure_notes b = Inr n \<and> validate n = Inr s
     \<and> create e (build_request s) = Inr c \<and> response_text c = Some t
     \<and> JSON_parse e t = Some p \<and>
     ((\<exists>xs ys. get_prop p (js ''actionItems'') = Inr (Some (JArr xs))
          \<and> get_prop (body r) (js ''actionItems'') = Inr (Some (JArr ys))
          \<and> length ys = length xs)
      \<or> (\<exists>x. get_prop p (js ''actionItems'') = Inr x \<and> \<not> Array_isArray x \<and> body r = p))"
proof -
  from handler_200 [OF assms] obtain n s c t p where
    run: "destructure_notes b = Inr n" "validate n = Inr s"
      "create e (build_request s) = Inr c" "response_text c = Some t" and
    jp: "JSON_parse e t = Some p" and
    ai: "add_ids e p (w\<lparr>calls := calls w @ [build_request s]\<rparr>) = (Inr (body r), w1)"
    by blast
  let ?w = "w\<lparr>calls := calls w @ [build_request s]\<rparr>"
  from ai have "p \<noteq> JNull" by (auto simp: add_ids_null)
  then obtain x where x: "get_prop p (js ''actionItems'') = Inr x"
    using get_prop_not_null by blast
  have "(\<exists>xs ys. get_prop p (js ''actionItems'') = Inr (Some (JArr xs))
          \<and> get_prop (body r) (js ''actionItems'') = Inr (Some (JArr ys))
          \<and> length ys = length xs)
      \<or> (\<exists>x. get_prop p (js ''actionItems'') = Inr x \<and> \<not> Array_isArray x \<and> body r = p)"
  proof (cases "Array_isArray x")
    case True
    then obtain xs where "x = Some (JArr xs)" by (cases x rule: Array_isArray.cases) simp_all
    with x have gx: "get_prop p (js ''actionItems'') = Inr (Some (JArr xs))" by simp
    from ai add_ids_array [OF gx, of e ?w]
    have "body r = set_prop p (js ''actionItems'') (JArr (fst (map_items e 0 xs ?w)))" by simp
    with gx have "get_prop (body r) (js ''actionItems'')
        = Inr (Some (JArr (fst (map_items e 0 xs ?w))))"
      by (simp add: get_set_prop_same)
    with gx show ?thesis by (auto simp: map_items_length)
  next
    case False
    with ai add_ids_unchanged [OF x False, of e ?w] have "body r = p" by simp
    with x False show ?thesis by blast
  qed
  with run jp show ?thesis by blast
qed

text \<open>
  The claim as stated fails on a completion without the field: the response has status
  200 and its body has no \<^verbatim>\<open>actionItems\<close> at all.
\<close>

theorem response_without_action_items:
  "status (fst (handler (answering summary_only_text (Some summary_only) (frozen 0))
      example_body fresh)) = 200
   \<and> get_prop (body (fst (handler (answering summary_only_text (Some summary_only) (frozen 0))
      example_body fresh))) (js ''actionItems'') = Inr None"
  by (simp add: handler_answering [OF example_texts_nonempty(1)]
      add_ids_unchanged [OF get_prop_examples(1)] get_prop_examples(1))

theorem action_items_of_response_witness:
  "status (fst (handler (answering two_items_text (Some two_items) (ticking 1000)) example_body fresh)) = 200
   \<and> (\<exists>n s c t p. destructure_notes example_body = Inr n \<and> validate n = Inr s
     \<and> create (answering two_items_text (Some two_items) (ticking 1000)) (build_request s) = Inr c
     \<and> response_text c = Some t
     \<and> JSON_parse (answering two_items_text (Some two_items) (ticking 1000)) t = Some p \<and>
     ((\<exists>xs ys. get_prop p (js ''actionItems'') = Inr (Some (JArr xs))
          \<and> get_prop (body (fst (handler (answering two_items_text (Some two_items) (ticking 1000))
                example_body fresh))) (js ''actionItems'') = Inr (Some (JArr ys))
          \<and> length ys = length xs)
      \<or> (\<exists>x. get_prop p (js ''actionItems'') = Inr x \<and> \<not> Array_isArray x
          \<and> body (fst (handler (answering two_items_text (Some two_items) (ticking 1000))
                example_body fresh)) = p)))"
  using action_items_of_response [OF prod.collapse [symmetric] two_items_status] two_items_status
  by (rule_tac conjI)

section \<open>Who assigns the id\<close>

text \<open>
  Claim C2 says that every element of the array is replaced by the element plus an id of
  the form \<^verbatim>\<open>item-<timestamp>-<index>\<close>, assigned by the normalizer and never taken from
  the model's output. The object literal of lines 118-121 writes \<^verbatim>\<open>id\<close> first and
  spreads the item after it, so an item that carries an \<^verbatim>\<open>id\<close> of its own keeps it:
  on the completion
  \<^verbatim>\<open>{"actionItems":[{"id":"mine","task":"A"}]}\<close>, with the clock at 1000, the id in the
  response is \<^verbatim>\<open>mine\<close>, not \<^verbatim>\<open>item-1000-0\<close>.
\<close>

theorem model_id_wins:
  "ids_of (body (fst (handler (answering own_id_text (Some own_id) (frozen 1000))
      example_body fresh)))
     = [Some (JStr (js ''mine''))]
   \<and> item_id 1000 0 = js ''item-1000-0''"
  by (simp add: handler_answering [OF example_texts_nonempty(3)]
      add_ids_array [OF get_prop_examples(3)] ids_of_set_prop [OF get_prop_examples(3)]
      Date_now_def now_answering frozen_def id_of_def lookup_with_id js_eq_iff item_id_examples)

section \<open>A completion without an array of action items\<close>

text \<open>
  Claim C3, as amended. For every completion text that \<^verbatim>\<open>JSON.parse\<close> accepts and
  whose parsed value is not \<^verbatim>\<open>null\<close> and has no \<^verbatim>\<open>actionItems\<close> field, or one
  that is not an array, the response is status 200 with the parsed value, unchanged, as
  its body: no array is synthesized and no error is raised. (Reading
  \<^verbatim>\<open>actionItems\<close> succeeds, with \<open>x\<close>, exactly when the parsed value is not
  \<^verbatim>\<open>null\<close>; \<open>x\<close> is \<open>None\<close> when the field is absent.)
\<close>

theorem unchanged_without_array:
  assumes "destructure_notes b = Inr n" and "validate n = Inr s"
    and "create e (build_request s) = Inr c"
    and "response_text c = Some t" and "t \<noteq> []" and "JSON_parse e t = Some p"
    and "get_prop p (js ''actionItems'') = Inr x" and "\<not> Array_isArray x"
  shows "handler e b w
     = (\<lparr>status = 200, body = p\<rparr>, w\<lparr>calls := calls w @ [build_request s]\<rparr>)"
  by (simp add: handler_parsed [OF assms(1-6)] add_ids_unchanged [OF assms(7,8)])

text \<open>
  The claim as stated fails on the completion text \<^verbatim>\<open>null\<close>: the parsed value has
  no \<^verbatim>\<open>actionItems\<close> field, reading the field throws, and the response is the
  failed-to-process error with status 500.
\<close>

theorem null_completion_fails:
  "fst (handler (answering (js ''null'') (Some JNull) (frozen 0)) example_body fresh)
     = failed_to_process
   \<and> status failed_to_process = 500
   \<and> fmlookup (own_props JNull) (js ''actionItems'') = None"
proof -
  have "handler (answering (js ''null'') (Some JNull) (frozen 0)) example_body fresh
     = (failed_to_process, \<lparr>calls = [build_request (js ''Alice will send the report by Friday.'')], ticks = 0\<rparr>)"
    by (simp add: handler_parsed [OF example_body_validates answering_run(1) answering_run(2)
          example_texts_nonempty(5) answering_run(3)] add_ids_null catch_null_read fresh_def)
  then show ?thesis
    by (simp add: failed_to_process_def error_response_def)
qed

theorem unchanged_without_array_witness:
  "handler (answering summary_only_text (Some summary_only) (frozen 0)) example_body fresh
     = (\<lparr>status = 200, body = summary_only\<rparr>,
        \<lparr>calls = [build_request (js ''Alice will send the report by Friday.'')], ticks = 0\<rparr>)"
proof -
  have "get_prop summary_only (js ''actionItems'') = Inr None"
    by (simp add: summary_only_def js_eq_iff)
  from unchanged_without_array [OF example_body_validates answering_run(1) answering_run(2)
      example_texts_nonempty(1) answering_run(3) this, of "frozen 0" fresh]
  show ?thesis by (simp add: fresh_def)
qed

section \<open>Validation\<close>

text \<open>
  Claim C4, as amended. The validation checks its rules in order and the first failure
  wins. Notes that are not a string (a number, an object, \<^verbatim>\<open>null\<close>, an array, or no
  notes at all) are answered with status 400 and the invalid-input error, and so is the
  empty string, which the first check \<^verbatim>\<open>!notes\<close> rejects before the length is looked
  at. A non-empty string whose trimmed length is below 10 is answered with status 400 and
  the too-short error; a string of trimmed length at least 10 and of length above 50,000
  with status 400 and the too-long error. A string of trimmed length at least 10 and
  length at most 50,000 passes: the response is not a 400 and the completion call is
  issued with the untrimmed notes.
\<close>

theorem validation_rules:
  assumes "destructure_notes b = Inr n"
  shows "(typeof n \<noteq> TString \<longrightarrow> handler e b w = (invalid_input, w))
     \<and> (n = Some (JStr []) \<longrightarrow> handler e b w = (invalid_input, w))
     \<and> (n = Some (JStr s) \<and> s \<noteq> [] \<and> length (trim s) < 10 \<longrightarrow>
          handler e b w = (too_short, w))
     \<and> (n = Some (JStr s) \<and> 10 \<le> length (trim s) \<and> 50000 < length s \<longrightarrow>
          handler e b w = (too_long, w))
     \<and> (n = Some (JStr s) \<and> 10 \<le> length (trim s) \<and> length s \<le> 50000 \<longrightarrow>
          validate n = Inr s \<and> status (fst (handler e b w)) \<noteq> 400
          \<and> calls (snd (handler e b w)) = calls w @ [build_request s])
     \<and> invalid_input
          = \<lparr>status = 400,
             body = JObj (fmap_of_list [(js ''error'',
               JStr (js ''Invalid input. Please provide meeting notes as a string.''))])\<rparr>
     \<and> too_short
          = \<lparr>status = 400,
             body = JObj (fmap_of_list [(js ''error'',
               JStr (js ''Meeting notes too short. Please provide at least 10 characters.''))])\<rparr>
     \<and> too_long
          = \<lparr>status = 400,
             body = JObj (fmap_of_list [(js ''error'',
               JStr (js ''Meeting notes too long. Please limit to 50,000 characters.''))])\<rparr>"
proof (intro conjI impI)
  assume "typeof n \<noteq> TString"
  then have "validate n = Inl invalid_input" by (simp add: validate_cases)
  with assms show "handler e b w = (invalid_input, w)" by (rule handler_rejected)
next
  assume "n = Some (JStr [])"
  then have "validate n = Inl invalid_input" by (simp add: validate_cases)
  with assms show "handler e b w = (invalid_input, w)" by (rule handler_rejected)
next
  assume "n = Some (JStr s) \<and> s \<noteq> [] \<and> length (trim s) < 10"
  then have "validate n = Inl too_short" by (simp add: validate_cases)
  with assms show "handler e b w = (too_short, w)" by (rule handler_rejected)
next
  assume "n = Some (JStr s) \<and> 10 \<le> length (trim s) \<and> 50000 < length s"
  then have "validate n = Inl too_long" by (auto simp add: validate_cases)
  with assms show "handler e b w = (too_long, w)" by (rule handler_rejected)
next
  assume a: "n = Some (JStr s) \<and> 10 \<le> length (trim s) \<and> length s \<le> 50000"
  then have "s \<noteq> []" by (auto simp: trim_def)
  with a show v: "validate n = Inr s" by (auto simp add: validate_cases)
  from handler_passes [OF assms v]
  show "status (fst (handler e b w)) \<noteq> 400"
    and "calls (snd (handler e b w)) = calls w @ [build_request s]"
    by simp_all
qed (simp_all add: invalid_input_def too_short_def too_long_def error_response_def)

text \<open>
  The claim as stated fails on the empty string: its trimmed length is 0, and the
  response is the invalid-input error, not the too-short error.
\<close>

theorem empty_notes_not_too_short:
  "fst (handler (throwing (Error ''unused'')) (body_with_notes (JStr [])) fresh) = invalid_input
   \<and> length (trim []) < 10
   \<and> invalid_input \<noteq> too_short"
proof -
  have "validate (Some (JStr [])) = Inl invalid_input" by (simp add: validate_cases)
  with destructure_body_with_notes
  have "handler (throwing (Error ''unused'')) (body_with_notes (JStr [])) fresh = (invalid_input, fresh)"
    by (rule handler_rejected)
  moreover have "invalid_input \<noteq> too_short"
    by (simp add: invalid_input_def too_short_def error_response_eq_iff)
  ultimately show ?thesis by (simp add: trim_def)
qed

text \<open>
  The rules at concrete notes, with the two boundaries: a string of 50,000 code units
  passes and one of 50,001 is too long; a string of trimmed length exactly 10 passes.
\<close>

theorem validation_rules_witness:
  "handler (throwing (Error ''connect ECONNREFUSED'')) (body_with_notes (JNum 5)) fresh = (invalid_input, fresh)
   \<and> handler (throwing (Error ''connect ECONNREFUSED'')) (body_with_notes (JStr [])) fresh = (invalid_input, fresh)
   \<and> handler (throwing (Error ''connect ECONNREFUSED'')) (body_with_notes (JStr (js ''Too short''))) fresh = (too_short, fresh)
   \<and> handler (throwing (Error ''connect ECONNREFUSED'')) (body_with_notes (JStr (replicate 50001 0x61))) fresh = (too_long, fresh)
   \<and> validate (Some (JStr (replicate 50000 0x61))) = Inr (replicate 50000 0x61)
   \<and> status (fst (handler (throwing (Error ''connect ECONNREFUSED'')) (body_with_notes (JStr (replicate 50000 0x61))) fresh)) \<noteq> 400
   \<and> length (trim (js ''  0123456789 '')) = 10
   \<and> validate (Some (JStr (js ''  0123456789 ''))) = Inr (js ''  0123456789 '')"
proof -
  let ?e = "throwing (Error ''connect ECONNREFUSED'')"
  have "handler ?e (body_with_notes (JNum 5)) fresh = (invalid_input, fresh)"
    using validation_rules [OF destructure_body_with_notes [of "JNum 5"], where e = ?e and w = fresh and s = "[]"] by simp
  moreover have "handler ?e (body_with_notes (JStr [])) fresh = (invalid_input, fresh)"
    using validation_rules [OF destructure_body_with_notes [of "JStr []"], where e = ?e and w = fresh and s = "[]"] by simp
  moreover have "handler ?e (body_with_notes (JStr (js ''Too short''))) fresh = (too_short, fresh)"
    using validation_rules [OF destructure_body_with_notes [of "JStr (js ''Too short'')"], where e = ?e and w = fresh and s = "js ''Too short''"]
    by (simp add: js_def trim_def is_white_space_def)
  moreover have "handler ?e (body_with_notes (JStr (replicate 50001 0x61))) fresh = (too_long, fresh)"
    using validation_rules [OF destructure_body_with_notes [of "JStr (replicate 50001 0x61)"], where e = ?e and w = fresh and s = "replicate 50001 0x61"]
    by (simp add: trim_replicate is_white_space_def)
  moreover have "validate (Some (JStr (replicate 50000 0x61))) = Inr (replicate 50000 0x61)
    \<and> status (fst (handler ?e (body_with_notes (JStr (replicate 50000 0x61))) fresh)) \<noteq> 400"
    using validation_rules [OF destructure_body_with_notes [of "JStr (replicate 50000 0x61)"], where e = ?e and w = fresh and s = "replicate 50000 0x61"]
    by (simp add: trim_replicate is_white_space_def)
  moreover have "length (trim (js ''  0123456789 '')) = 10
    \<and> validate (Some (JStr (js ''  0123456789 ''))) = Inr (js ''  0123456789 '')"
    using validation_rules [OF destructure_body_with_notes [of "JStr (js ''  0123456789 '')"], where e = ?e and w = fresh and s = "js ''  0123456789 ''"]
    by (simp add: trim_ten) (simp add: js_def)
  ultimately show ?thesis by blast
qed

section \<open>Error classification\<close>




section \<open>Uniqueness of the ids\<close>

text \<open>
  Claim C6 says that no two items of one normalized result share an id. The object
  literal of lines 118-121 writes \<^verbatim>\<open>id\<close> first and spreads the item after it, so
  two items that come with the same \<^verbatim>\<open>id\<close> keep it: on the completion
  \<^verbatim>\<open>{"actionItems":[{"id":"x","task":"A"},{"id":"x","task":"B"}]}\<close> both ids in the
  response are \<^verbatim>\<open>x\<close>.
\<close>

theorem same_ids_kept:
  "ids_of (body (fst (handler (answering same_ids_text (Some same_ids) (ticking 1000))
      example_body fresh)))
     = [Some (JStr (js ''x'')), Some (JStr (js ''x''))]"
  by (simp add: handler_answering [OF example_texts_nonempty(4)]
      add_ids_array [OF get_prop_examples(4)] ids_of_set_prop [OF get_prop_examples(4)]
      Date_now_def now_answering ticking_def id_of_def lookup_with_id js_eq_iff)

section \<open>The clock\<close>

text \<open>
  Claim C7, as amended. The timestamp in an injected id is read from the clock once per
  item, when the id of that item is built: the id of the item at position \<open>i\<close> (when the
  item has none of its own) holds the \<open>i\<close>-th reading of the clock after the request
  began. Normalizing the same completion under a clock that gives the same readings for
  the items yields the same response and the same world. Normalizing it under any other
  clock yields a response that differs only in the ids: the same status, the same
  top-level fields other than \<^verbatim>\<open>actionItems\<close>, arrays of the same length, and at every
  position items with the same fields other than \<^verbatim>\<open>id\<close>.
\<close>

theorem clock_read_per_item:
  assumes "destructure_notes b = Inr n" and "validate n = Inr s"
    and "create e (build_request s) = Inr c"
    and "response_text c = Some t" and "t \<noteq> []" and "JSON_parse e t = Some p"
    and "get_prop p (js ''actionItems'') = Inr (Some (JArr xs))"
  shows "(\<forall>i<length xs. id_of (xs ! i) = None \<longrightarrow>
            ids_of (body (fst (handler e b w))) ! i
              = Some (JStr (item_id (now e (ticks w + i)) i)))
     \<and> ((\<forall>i<length xs. clock (ticks w + i) = now e (ticks w + i)) \<longrightarrow>
            handler (e\<lparr>now := clock\<rparr>) b w = handler e b w)
     \<and> status (fst (handler (e\<lparr>now := clock\<rparr>) b w)) = status (fst (handler e b w))
     \<and> (\<forall>k. k \<noteq> js ''actionItems'' \<longrightarrow>
            get_prop (body (fst (handler (e\<lparr>now := clock\<rparr>) b w))) k
              = get_prop (body (fst (handler e b w))) k)
     \<and> length (items_of (body (fst (handler (e\<lparr>now := clock\<rparr>) b w)))) = length xs
     \<and> length (items_of (body (fst (handler e b w)))) = length xs
     \<and> (\<forall>i<length xs. \<forall>k. k \<noteq> js ''id'' \<longrightarrow>
            fmlookup (own_props (items_of (body (fst (handler (e\<lparr>now := clock\<rparr>) b w))) ! i)) k
              = fmlookup (own_props (items_of (body (fst (handler e b w))) ! i)) k)"
proof -
  let ?e' = "e\<lparr>now := clock\<rparr>"
  have run': "create ?e' (build_request s) = Inr c" "JSON_parse ?e' t = Some p"
    using assms(3,6) by simp_all
  note h = handler_items [OF assms, of w]
  note h' = handler_items [OF assms(1,2) run'(1) assms(4,5) run'(2) assms(7), of w]
  note nth = handler_item_nth [OF assms, of _ w]
  note nth' = handler_item_nth [OF assms(1,2) run'(1) assms(4,5) run'(2) assms(7), of _ w]
  note len = handler_items_length [OF assms, of w]
  note len' = handler_items_length [OF assms(1,2) run'(1) assms(4,5) run'(2) assms(7), of w]
  have 1: "\<forall>i<length xs. id_of (xs ! i) = None \<longrightarrow>
            ids_of (body (fst (handler e b w))) ! i
              = Some (JStr (item_id (now e (ticks w + i)) i))"
    by (simp add: ids_of_def len nth id_of_def lookup_with_id fmdom_notI)
  have 2: "(\<forall>i<length xs. clock (ticks w + i) = now e (ticks w + i)) \<longrightarrow>
            handler ?e' b w = handler e b w"
  proof
    assume "\<forall>i<length xs. clock (ticks w + i) = now e (ticks w + i)"
    then have "fst (map_items ?e' 0 xs (w\<lparr>calls := calls w @ [build_request s]\<rparr>))
        = fst (map_items e 0 xs (w\<lparr>calls := calls w @ [build_request s]\<rparr>))"
      by (intro map_items_same_readings) simp
    then show "handler ?e' b w = handler e b w" by (simp add: h h')
  qed
  have 3: "status (fst (handler ?e' b w)) = status (fst (handler e b w))"
    by (simp add: h h')
  have 4: "\<forall>k. k \<noteq> js ''actionItems'' \<longrightarrow>
            get_prop (body (fst (handler ?e' b w))) k = get_prop (body (fst (handler e b w))) k"
    by (simp add: h h' get_set_prop_other)
  have 5: "\<forall>i<length xs. \<forall>k. k \<noteq> js ''id'' \<longrightarrow>
            fmlookup (own_props (items_of (body (fst (handler ?e' b w))) ! i)) k
              = fmlookup (own_props (items_of (body (fst (handler e b w))) ! i)) k"
    by (simp add: nth nth' with_id_frame)
  from 1 2 3 4 5 len len' show ?thesis by blast
qed

text \<open>
  The claim as stated fails when the clock advances between two items: the ids of one
  result then hold two different timestamps.
\<close>

theorem timestamps_differ_within_a_result:
  "ids_of (body (fst (handler (answering two_items_text (Some two_items) (ticking 1000))
      example_body fresh)))
     = [Some (JStr (js ''item-1000-0'')), Some (JStr (js ''item-1001-1''))]"
  by (rule two_items_ticking_ids)

text \<open>
  On the completion with two items: a clock that agrees with the first on the two
  readings gives the same response; a clock that does not gives a response with the same
  status, summary, number of items and tasks.
\<close>

theorem clock_read_per_item_witness:
  "ids_of (body (fst (handler (answering two_items_text (Some two_items) (ticking 1000))
       example_body fresh))) ! 1
     = Some (JStr (item_id 1001 1))
   \<and> handler ((answering two_items_text (Some two_items) (ticking 1000))\<lparr>now := stopping 1000 1\<rparr>)
       example_body fresh
     = handler (answering two_items_text (Some two_items) (ticking 1000)) example_body fresh
   \<and> status (fst (handler ((answering two_items_text (Some two_items) (ticking 1000))\<lparr>now := frozen 5\<rparr>)
       example_body fresh))
     = status (fst (handler (answering two_items_text (Some two_items) (ticking 1000))
       example_body fresh))
   \<and> get_prop (body (fst (handler ((answering two_items_text (Some two_items) (ticking 1000))\<lparr>now := frozen 5\<rparr>)
       example_body fresh))) (js ''summary'')
     = get_prop (body (fst (handler (answering two_items_text (Some two_items) (ticking 1000))
       example_body fresh))) (js ''summary'')
   \<and> length (items_of (body (fst (handler ((answering two_items_text (Some two_items) (ticking 1000))\<lparr>now := frozen 5\<rparr>)
       example_body fresh)))) = 2
   \<and> fmlookup (own_props (items_of (body (fst (handler
         ((answering two_items_text (Some two_items) (ticking 1000))\<lparr>now := frozen 5\<rparr>)
         example_body fresh))) ! 1)) (js ''task'')
     = fmlookup (own_props (items_of (body (fst (handler
         (answering two_items_text (Some two_items) (ticking 1000))
         example_body fresh))) ! 1)) (js ''task'')"
proof -
  let ?e = "answering two_items_text (Some two_items) (ticking 1000)"
  let ?xs = "[JObj (fmap_of_list [(js ''task'', JStr (js ''A'')), (js ''priority'', JStr (js ''urgent''))]),
       JObj (fmap_of_list [(js ''task'', JStr (js ''B''))])]"
  note c = clock_read_per_item [where e = ?e and p = two_items and t = two_items_text
        and w = fresh,
      OF example_body_validates answering_run(1) answering_run(2) example_texts_nonempty(2)
        answering_run(3) get_prop_examples(2)]
  have "id_of (?xs ! 1) = None" by (simp add: id_of_def js_eq_iff)
  with c [of "frozen 5"]
  have 1: "ids_of (body (fst (handler ?e example_body fresh))) ! 1 = Some (JStr (item_id 1001 1))"
    by (simp add: now_answering ticking_def fresh_def)
  have "\<forall>i<length ?xs. stopping 1000 1 (ticks fresh + i) = now ?e (ticks fresh + i)"
    by (simp add: now_answering ticking_def stopping_def fresh_def)
  with c [of "stopping 1000 1"]
  have 2: "handler (?e\<lparr>now := stopping 1000 1\<rparr>) example_body fresh = handler ?e example_body fresh"
    by blast
  from c [of "frozen 5"]
  have 3: "status (fst (handler (?e\<lparr>now := frozen 5\<rparr>) example_body fresh))
      = status (fst (handler ?e example_body fresh))"
    and 4: "get_prop (body (fst (handler (?e\<lparr>now := frozen 5\<rparr>) example_body fresh))) (js ''summary'')
      = get_prop (body (fst (handler ?e example_body fresh))) (js ''summary'')"
    and 5: "length (items_of (body (fst (handler (?e\<lparr>now := frozen 5\<rparr>) example_body fresh)))) = 2"
    and 6: "fmlookup (own_props (items_of (body (fst (handler (?e\<lparr>now := frozen 5\<rparr>)
         example_body fresh))) ! 1)) (js ''task'')
     = fmlookup (own_props (items_of (body (fst (handler ?e example_body fresh))) ! 1)) (js ''task'')"
    by (simp_all add: js_eq_iff)
  from 1 2 3 4 5 6 show ?thesis by blast
qed

section \<open>What normalization leaves alone\<close>

text \<open>
  Claim C8. Normalization changes no field other than \<^verbatim>\<open>id\<close>. For a parsed
  completion other than \<^verbatim>\<open>null\<close>, every top-level field of the response body other
  than \<^verbatim>\<open>actionItems\<close> is that of the parsed value, and without an array under
  \<^verbatim>\<open>actionItems\<close> the body is the parsed value. With an array there, the body has an
  array of the same length, and at every position each field of the original item is in
  the normalized item with the same value (whatever the value: no field is checked
  against the shape of an action item), and every field of the normalized item other
  than \<^verbatim>\<open>id\<close> is a field of the original item.
\<close>

theorem normalization_frame:
  assumes "destructure_notes b = Inr n" and "validate n = Inr s"
    and "create e (build_request s) = Inr c"
    and "response_text c = Some t" and "t \<noteq> []" and "JSON_parse e t = Some p"
    and "get_prop p (js ''actionItems'') = Inr x"
  shows "(\<forall>k. k \<noteq> js ''actionItems'' \<longrightarrow>
            get_prop (body (fst (handler e b w))) k = get_prop p k)
     \<and> (\<not> Array_isArray x \<longrightarrow> body (fst (handler e b w)) = p)
     \<and> (\<forall>xs. x = Some (JArr xs) \<longrightarrow>
          (\<exists>ys. get_prop (body (fst (handler e b w))) (js ''actionItems'') = Inr (Some (JArr ys))
             \<and> length ys = length xs
             \<and> (\<forall>i<length xs.
                  (\<forall>k v. fmlookup (own_props (xs ! i)) k = Some v \<longrightarrow>
                           fmlookup (own_props (ys ! i)) k = Some v)
                  \<and> (\<forall>k. k \<noteq> js ''id'' \<longrightarrow>
                           fmlookup (own_props (ys ! i)) k = fmlookup (own_props (xs ! i)) k))))"
proof -
  note h = handler_parsed [OF assms(1-6), of w]
  let ?w = "w\<lparr>calls := calls w @ [build_request s]\<rparr>"
  show ?thesis
  proof (cases "Array_isArray x")
    case False
    with assms(7) have "body (fst (handler e b w)) = p"
      by (simp add: h add_ids_unchanged)
    with False show ?thesis by auto
  next
    case True
    then obtain xs where xs: "x = Some (JArr xs)"
      by (cases x rule: Array_isArray.cases) simp_all
    with assms(7) have gx: "get_prop p (js ''actionItems'') = Inr (Some (JArr xs))" by simp
    let ?ys = "fst (map_items e 0 xs ?w)"
    have b: "body (fst (handler e b w)) = set_prop p (js ''actionItems'') (JArr ?ys)"
      by (simp add: h add_ids_array [OF gx])
    have 1: "\<forall>k. k \<noteq> js ''actionItems'' \<longrightarrow>
            get_prop (body (fst (handler e b w))) k = get_prop p k"
      by (simp add: b get_set_prop_other)
    have 2: "get_prop (body (fst (handler e b w))) (js ''actionItems'') = Inr (Some (JArr ?ys))"
      by (simp add: b get_set_prop_same [OF gx])
    have 3: "length ?ys = length xs" by (simp add: map_items_length)
    have 4: "\<forall>i<length xs.
        (\<forall>k v. fmlookup (own_props (xs ! i)) k = Some v \<longrightarrow>
                 fmlookup (own_props (?ys ! i)) k = Some v)
        \<and> (\<forall>k. k \<noteq> js ''id'' \<longrightarrow>
                 fmlookup (own_props (?ys ! i)) k = fmlookup (own_props (xs ! i)) k)"
      by (simp add: map_items_nth with_id_keeps with_id_frame)
    from 1 2 3 4 xs True show ?thesis by blast
  qed
qed

text \<open>
  On a completion with two items and a summary: the summary and the fields of the
  items, among them the priority \<^verbatim>\<open>urgent\<close>, which is none of high, medium and low,
  are in the response as they were.
\<close>

theorem normalization_frame_witness:
  "get_prop (body (fst (handler (answering two_items_text (Some two_items) (ticking 1000))
        example_body fresh))) (js ''summary'')
     = Inr (Some (JStr (js ''S'')))
   \<and> (\<exists>ys. get_prop (body (fst (handler (answering two_items_text (Some two_items) (ticking 1000))
            example_body fresh))) (js ''actionItems'') = Inr (Some (JArr ys))
        \<and> length ys = 2
        \<and> fmlookup (own_props (ys ! 0)) (js ''priority'') = Some (JStr (js ''urgent''))
        \<and> fmlookup (own_props (ys ! 0)) (js ''task'') = Some (JStr (js ''A''))
        \<and> fmlookup (own_props (ys ! 1)) (js ''priority'') = None
        \<and> fmlookup (own_props (ys ! 1)) (js ''task'') = Some (JStr (js ''B'')))"
proof -
  let ?e = "answering two_items_text (Some two_items) (ticking 1000)"
  let ?r = "fst (handler ?e example_body fresh)"
  let ?xs = "[JObj (fmap_of_list [(js ''task'', JStr (js ''A'')), (js ''priority'', JStr (js ''urgent''))]),
       JObj (fmap_of_list [(js ''task'', JStr (js ''B''))])]"
  note f = normalization_frame [where e = ?e and p = two_items and t = two_items_text and w = fresh,
      OF example_body_validates answering_run(1) answering_run(2) example_texts_nonempty(2)
        answering_run(3) get_prop_examples(2)]
  from f have "get_prop (body ?r) (js ''summary'') = get_prop two_items (js ''summary'')"
    by (simp add: js_eq_iff)
  then have 1: "get_prop (body ?r) (js ''summary'') = Inr (Some (JStr (js ''S'')))"
    by (simp add: two_items_def js_eq_iff)
  from f obtain ys where ys: "get_prop (body ?r) (js ''actionItems'') = Inr (Some (JArr ys))"
      "length ys = length ?xs"
      "\<forall>i<length ?xs.
          (\<forall>k v. fmlookup (own_props (?xs ! i)) k = Some v \<longrightarrow>
                   fmlookup (own_props (ys ! i)) k = Some v)
          \<and> (\<forall>k. k \<noteq> js ''id'' \<longrightarrow>
                   fmlookup (own_props (ys ! i)) k = fmlookup (own_props (?xs ! i)) k)"
    by blast
  from ys(3) have "\<forall>k. k \<noteq> js ''id'' \<longrightarrow>
       fmlookup (own_props (ys ! 0)) k = fmlookup (own_props (?xs ! 0)) k"
    by simp
  then have 2: "fmlookup (own_props (ys ! 0)) (js ''priority'') = Some (JStr (js ''urgent''))"
      "fmlookup (own_props (ys ! 0)) (js ''task'') = Some (JStr (js ''A''))"
    by (simp_all add: js_eq_iff)
  from ys(3) have "\<forall>k. k \<noteq> js ''id'' \<longrightarrow>
       fmlookup (own_props (ys ! 1)) k = fmlookup (own_props (?xs ! 1)) k"
    by simp
  then have 3: "fmlookup (own_props (ys ! 1)) (js ''priority'') = None"
      "fmlookup (own_props (ys ! 1)) (js ''task'') = Some (JStr (js ''B''))"
    by (simp_all add: js_eq_iff)
  from 1 2 3 ys(1,2) show ?thesis by simp
qed

section \<open>The completion call\<close>

text \<open>
  Claim C9. For every request the handler issues at most one completion call: the calls
  recorded after the request are those recorded before it, or those followed by exactly
  one call. A request that fails validation issues none: its response is the rejection
  of the validation, with status 400, and the world is the one before the request; and
  whenever the response has status 400, no call has been issued.
\<close>

theorem one_completion_call:
  "(calls (snd (handler e b w)) = calls w
      \<or> (\<exists>s. calls (snd (handler e b w)) = calls w @ [build_request s]))
   \<and> (status (fst (handler e b w)) = 400 \<longrightarrow> calls (snd (handler e b w)) = calls w)
   \<and> (\<forall>n r. destructure_notes b = Inr n \<and> validate n = Inl r \<longrightarrow>
         handler e b w = (r, w) \<and> status r = 400)"
proof (intro conjI)
  show "calls (snd (handler e b w)) = calls w
      \<or> (\<exists>s. calls (snd (handler e b w)) = calls w @ [build_request s])"
    using handler_calls_cases [of e b w] by blast
  show "status (fst (handler e b w)) = 400 \<longrightarrow> calls (snd (handler e b w)) = calls w"
    using handler_calls_cases [of e b w] by blast
  show "\<forall>n r. destructure_notes b = Inr n \<and> validate n = Inl r \<longrightarrow>
         handler e b w = (r, w) \<and> status r = 400"
    by (auto simp: handler_rejected validate_rejects_400)
qed

theorem one_completion_call_witness:
  "calls (snd (handler (throwing (Error ''connect ECONNREFUSED'')) example_body fresh))
     = [build_request (js ''Alice will send the report by Friday.'')]
   \<and> handler (throwing (Error ''connect ECONNREFUSED'')) (body_with_notes (JStr (js ''Too short''))) fresh
     = (too_short, fresh)
   \<and> status too_short = 400"
proof -
  let ?e = "throwing (Error ''connect ECONNREFUSED'')"
  have v: "validate (Some (JStr (js ''Too short''))) = Inl too_short"
    by (simp add: validate_cases) (simp add: js_def trim_def is_white_space_def)
  from one_completion_call [of ?e "body_with_notes (JStr (js ''Too short''))" fresh]
    destructure_body_with_notes v
  have "handler ?e (body_with_notes (JStr (js ''Too short''))) fresh = (too_short, fresh)
     \<and> status too_short = 400"
    by blast
  moreover have "calls (snd (handler ?e example_body fresh))
     = [build_request (js ''Alice will send the report by Friday.'')]"
    by (simp add: handler_provider_throws [OF example_body_validates] throwing_def fresh_def)
  ultimately show ?thesis by simp
qed

section \<open>Completion texts that are valid JSON\<close>

text \<open>
  Claim C10, as amended. When the completion text is the JSON literal \<^verbatim>\<open>null\<close>, the
  response is the failed-to-process error with status 500. For every other text that
  \<^verbatim>\<open>JSON.parse\<close> accepts the response has status 200, and its body is the parsed value
  as lines 117-122 leave it: the parsed value itself when it has no array under
  \<^verbatim>\<open>actionItems\<close>, in particular when it is a boolean, a number, a string or an array,
  and otherwise the parsed value in which \<^verbatim>\<open>actionItems\<close> has been replaced by the
  array of the items with their ids.
\<close>

theorem valid_json_completion:
  assumes "destructure_notes b = Inr n" and "validate n = Inr s"
    and "create e (build_request s) = Inr c"
    and "response_text c = Some t" and "t \<noteq> []" and "JSON_parse e t = Some p"
  shows "(p = JNull \<longrightarrow>
            fst (handler e b w)
              = \<lparr>status = 500,
                 body = JObj (fmap_of_list [(js ''error'', JStr (js ''Failed to process meeting notes. Please try again.''))])\<rparr>)
     \<and> (p \<noteq> JNull \<longrightarrow> status (fst (handler e b w)) = 200)
     \<and> (get_prop p (js ''actionItems'') = Inr x \<and> \<not> Array_isArray x \<longrightarrow>
            body (fst (handler e b w)) = p)
     \<and> (p = JBool v1 \<or> p = JNum v2 \<or> p = JStr v3 \<or> p = JArr v4 \<longrightarrow>
            body (fst (handler e b w)) = p)
     \<and> (get_prop p (js ''actionItems'') = Inr (Some (JArr xs)) \<longrightarrow>
            body (fst (handler e b w))
              = set_prop p (js ''actionItems'')
                  (JArr (fst (map_items e 0 xs (w\<lparr>calls := calls w @ [build_request s]\<rparr>)))))"
proof (intro conjI impI)
  note h = handler_parsed [OF assms, of w]
  let ?w = "w\<lparr>calls := calls w @ [build_request s]\<rparr>"
  {
    assume "p = JNull"
    then show "fst (handler e b w)
        = \<lparr>status = 500,
                 body = JObj (fmap_of_list [(js ''error'', JStr (js ''Failed to process meeting notes. Please try again.''))])\<rparr>"
      by (simp add: h add_ids_null catch_null_read failed_to_process_def error_response_def)
  next
    assume "p \<noteq> JNull"
    then obtain y where y: "get_prop p (js ''actionItems'') = Inr y"
      using get_prop_not_null by blast
    show "status (fst (handler e b w)) = 200"
    proof (cases "Array_isArray y")
      case True
      then obtain ys where "y = Some (JArr ys)" by (cases y rule: Array_isArray.cases) simp_all
      with y show ?thesis by (simp add: h add_ids_array)
    next
      case False
      with y show ?thesis by (simp add: h add_ids_unchanged)
    qed
  next
    assume "get_prop p (js ''actionItems'') = Inr x \<and> \<not> Array_isArray x"
    then show "body (fst (handler e b w)) = p"
      by (simp add: h add_ids_unchanged)
  next
    assume "p = JBool v1 \<or> p = JNum v2 \<or> p = JStr v3 \<or> p = JArr v4"
    then have "get_prop p (js ''actionItems'') = Inr None" by auto
    then show "body (fst (handler e b w)) = p"
      by (simp add: h add_ids_unchanged)
  next 
    assume "get_prop p (js ''actionItems'') = Inr (Some (JArr xs))"
    then show "body (fst (handler e b w))
        = set_prop p (js ''actionItems'') (JArr (fst (map_items e 0 xs ?w)))"
      by (simp add: h add_ids_array)
  }
qed

text \<open>
  The claim as stated fails on a completion with action items: the response has status
  200, but its body is not the parsed value, whose items have no ids.
\<close>

theorem ids_change_the_body:
  "JSON_parse (answering two_items_text (Some two_items) (frozen 1000)) two_items_text = Some two_items
   \<and> status (fst (handler (answering two_items_text (Some two_items) (frozen 1000))
      example_body fresh)) = 200
   \<and> ids_of (body (fst (handler (answering two_items_text (Some two_items) (frozen 1000))
      example_body fresh)))
     = [Some (JStr (js ''item-1000-0'')), Some (JStr (js ''item-1000-1''))]
   \<and> ids_of two_items = [None, None]
   \<and> body (fst (handler (answering two_items_text (Some two_items) (frozen 1000))
      example_body fresh)) \<noteq> two_items"
proof -
  let ?r = "fst (handler (answering two_items_text (Some two_items) (frozen 1000)) example_body fresh)"
  have "status ?r = 200"
    by (simp add: handler_answering [OF example_texts_nonempty(2)] add_ids_array [OF get_prop_examples(2)])
  moreover have "body ?r \<noteq> two_items"
  proof
    assume "body ?r = two_items"
    then have "ids_of (body ?r) = ids_of two_items" by simp
    then show False by (simp add: two_items_frozen_ids two_items_ids)
  qed
  ultimately show ?thesis
    by (simp add: two_items_frozen_ids two_items_ids answering_run)
qed

theorem valid_json_completion_witness:
  "fst (handler (answering (js ''null'') (Some JNull) (frozen 0)) example_body fresh)
     = \<lparr>status = 500,
                 body = JObj (fmap_of_list [(js ''error'', JStr (js ''Failed to process meeting notes. Please try again.''))])\<rparr>
   \<and> fst (handler (answering (js ''42'') (Some (JNum 0x4045000000000000)) (frozen 0)) example_body fresh)
     = \<lparr>status = 200, body = JNum 0x4045000000000000\<rparr>
   \<and> fst (handler (answering (js ''false'') (Some (JBool False)) (frozen 0)) example_body fresh)
     = \<lparr>status = 200, body = JBool False\<rparr>
   \<and> fst (handler (answering (js ''[]'') (Some (JArr [])) (frozen 0)) example_body fresh)
     = \<lparr>status = 200, body = JArr []\<rparr>
   \<and> fst (handler (answering summary_only_text (Some summary_only) (frozen 0)) example_body fresh)
     = \<lparr>status = 200, body = summary_only\<rparr>
   \<and> status (fst (handler (answering two_items_text (Some two_items) (frozen 1000)) example_body fresh))
     = 200
   \<and> ids_of (body (fst (handler (answering two_items_text (Some two_items) (frozen 1000))
         example_body fresh)))
     = [Some (JStr (js ''item-1000-0'')), Some (JStr (js ''item-1000-1''))]"
proof -
  have ne: "js ''null'' \<noteq> []" "js ''42'' \<noteq> []" "js ''false'' \<noteq> []" "js ''[]'' \<noteq> []"
    by (simp_all add: js_def)
  have "fst (handler (answering (js ''null'') (Some JNull) (frozen 0)) example_body fresh)
     = \<lparr>status = 500,
                 body = JObj (fmap_of_list [(js ''error'', JStr (js ''Failed to process meeting notes. Please try again.''))])\<rparr>"
    using valid_json_completion [where e = "answering (js ''null'') (Some (JNull)) (frozen 0)" and p = "JNull" and t = "js ''null''"
        and w = fresh,
        OF example_body_validates answering_run(1) answering_run(2) ne(1) answering_run(3)]
    by simp
  moreover have "fst (handler (answering (js ''42'') (Some (JNum 0x4045000000000000)) (frozen 0)) example_body fresh)
     = \<lparr>status = 200, body = JNum 0x4045000000000000\<rparr>"
    using valid_json_completion [where e = "answering (js ''42'') (Some (JNum 0x4045000000000000)) (frozen 0)" and p = "JNum 0x4045000000000000" and t = "js ''42''"
        and w = fresh and ?v2.0 = "0x4045000000000000",
        OF example_body_validates answering_run(1) answering_run(2) ne(2) answering_run(3)]
    by (cases "fst (handler (answering (js ''42'') (Some (JNum 0x4045000000000000)) (frozen 0)) example_body fresh)") simp
  moreover have "fst (handler (answering (js ''false'') (Some (JBool False)) (frozen 0)) example_body fresh)
     = \<lparr>status = 200, body = JBool False\<rparr>"
    using valid_json_completion [where e = "answering (js ''false'') (Some (JBool False)) (frozen 0)" and p = "JBool False" and t = "js ''false''"
        and w = fresh and ?v1.0 = False,
        OF example_body_validates answering_run(1) answering_run(2) ne(3) answering_run(3)]
    by (cases "fst (handler (answering (js ''false'') (Some (JBool False)) (frozen 0)) example_body fresh)") simp
  moreover have "fst (handler (answering (js ''[]'') (Some (JArr [])) (frozen 0)) example_body fresh)
     = \<lparr>status = 200, body = JArr []\<rparr>"
    using valid_json_completion [where e = "answering (js ''[]'') (Some (JArr [])) (frozen 0)" and p = "JArr []" and t = "js ''[]''"
        and w = fresh and ?v4.0 = "[]",
        OF example_body_validates answering_run(1) answering_run(2) ne(4) answering_run(3)]
    by (cases "fst (handler (answering (js ''[]'') (Some (JArr [])) (frozen 0)) example_body fresh)") simp
  moreover have "fst (handler (answering summary_only_text (Some summary_only) (frozen 0)) example_body fresh)
     = \<lparr>status = 200, body = summary_only\<rparr>"
    using valid_json_completion [where e = "answering (summary_only_text) (Some (summary_only)) (frozen 0)" and p = "summary_only" and t = "summary_only_text"
        and w = fresh and x = None,
        OF example_body_validates answering_run(1) answering_run(2) example_texts_nonempty(1) answering_run(3)]
    by (cases "fst (handler (answering summary_only_text (Some summary_only) (frozen 0)) example_body fresh)")
       (simp add: get_prop_examples examples_not_null)
  moreover have "status (fst (handler (answering two_items_text (Some two_items) (frozen 1000)) example_body fresh))
     = 200"
    using valid_json_completion [where e = "answering (two_items_text) (Some (two_items)) (frozen 1000)" and p = "two_items" and t = "two_items_text"
        and w = fresh,
        OF example_body_validates answering_run(1) answering_run(2) example_texts_nonempty(2) answering_run(3)]
    by (simp add: examples_not_null)
  moreover have "ids_of (body (fst (handler (answering two_items_text (Some two_items) (frozen 1000))
         example_body fresh)))
     = [Some (JStr (js ''item-1000-0'')), Some (JStr (js ''item-1000-1''))]"
    using valid_json_completion [where e = "answering two_items_text (Some two_items) (frozen 1000)"
        and p = two_items and t = two_items_text and w = fresh
        and xs = "[JObj (fmap_of_list [(js ''task'', JStr (js ''A'')), (js ''priority'', JStr (js ''urgent''))]),
                   JObj (fmap_of_list [(js ''task'', JStr (js ''B''))])]",
        OF example_body_validates answering_run(1) answering_run(2) example_texts_nonempty(2)
          answering_run(3)]
    by (simp add: get_prop_examples ids_of_set_prop [OF get_prop_examples(2)]
        Date_now_def now_answering frozen_def id_of_def lookup_with_id js_eq_iff item_id_examples)
  ultimately show ?thesis by blast
qed

end
